theory Spec2Isabelle
  imports Main "HOL-Library.Word"
begin

section \<open>Data model\<close>

text \<open>
  The engine of \<^verbatim>\<open>core/db.go\<close> and \<^verbatim>\<open>safety/safety_api.go\<close>, as a sequential
  state-passing model. Locks are left out (one caller at a time); file and clock
  operations are assumed to succeed, and the current time of a call is a parameter
  \<open>now\<close> of the operation (one instant per call).

  A Go \<^verbatim>\<open>core.Row\<close> is a map, that is a reference: two variables may denote the
  same row, and a write through one is seen through the other. Rows therefore live in
  an explicit store \<open>Heap\<close> of the database, and every row slice of the source is a
  list of addresses. A nil row is not an address of the model. Values are the
  comparable scalars a row holds, with \<open>VNil\<close> for the nil interface that reading an
  absent key yields; floats and nested maps stay outside (Go cannot use a nested
  map as the key of a unique index at all).
\<close>

datatype val = VNil | VInt int | VStr string | VBool bool

type_synonym Row = "string \<rightharpoonup> val"
type_synonym addr = nat
type_synonym time = int  \<comment> \<open>nanoseconds since the zero time\<close>
type_synonym error = string

datatype FieldType = FieldTypeInt | FieldTypeString | FieldTypeBool | FieldTypeFloat | FieldTypeMap

record Field =
  Name :: string
  Type :: FieldType
  Unique :: bool

record Schema =
  Version :: nat
  Fields :: "Field list"

record HotHeap =
  Rows :: "addr list"
  MaxRows :: int
  CreatedAt :: time

record ClumpMetadata =
  RowCount :: nat
  MetaCreatedAt :: time
  SchemaVersion :: nat

record SealedClump =
  ClumpRows :: "addr list"
  SealedAt :: time
  Metadata :: ClumpMetadata

record Table =
  TblName :: string
  TblSchema :: Schema
  TblHotHeap :: HotHeap
  SealedClumps :: "SealedClump list"
  UniqueIndices :: "string \<rightharpoonup> val set"

record SafetyBackup =
  TableName :: string
  Timestamp :: time
  Data :: Row

text \<open>
  The files. A record of the data file is the serialised clump: the contents of its
  rows at the moment of writing. A frame of the safety log is what \<open>Restore\<close> can
  observe of it: its size field or one of its symbols may be unreadable, its
  ciphertext was produced under some key and opens under that key only, and the
  plaintext is the serialised backup or does not parse.
\<close>

record PersistedClump =
  PTable :: string
  PRows :: "Row list"
  PSealedAt :: time
  PMetadata :: ClumpMetadata

datatype plaintext = BackupJSON SafetyBackup | Malformed

datatype frame =
    BadSize error
  | BadSymbol error
  | Ciphertext string plaintext

record Database =
  Key :: string
  Schemas :: "string \<rightharpoonup> Schema"
  Tables :: "string \<rightharpoonup> Table"
  Orphans :: "string \<rightharpoonup> SealedClump list"
  Heap :: "addr \<Rightarrow> Row"
  NextFree :: addr
  File :: "PersistedClump list"
  SafetyFile :: "frame list"
  SchemaFile :: "string \<rightharpoonup> Schema"

section \<open>Core operations\<close>

text \<open>
  Modelled from the spec: \<^verbatim>\<open>NewHotHeap\<close> is declared in a source file
  outside \<^verbatim>\<open>core/db.go\<close>; the
  spec describes a HotHeap as a row sequence with a creation timestamp and a maximum
  row capacity.
\<close>

definition NewHotHeap :: "int \<Rightarrow> time \<Rightarrow> HotHeap" where
  "NewHotHeap maxRows now = \<lparr>Rows = [], MaxRows = maxRows, CreatedAt = now\<rparr>"

text \<open>
  \<^verbatim>\<open>Open\<close> on a path whose three files are new: \<^verbatim>\<open>Load\<close> and \<^verbatim>\<open>LoadSchemas\<close>
  find nothing to replay.
\<close>

definition Open :: "string \<Rightarrow> error + Database" where
  "Open key =
     (if key = [] then Inl ''database key is required''
      else Inr \<lparr>Key = key, Schemas = Map.empty, Tables = Map.empty, Orphans = Map.empty,
                Heap = (\<lambda>_. Map.empty), NextFree = 0, File = [], SafetyFile = [],
                SchemaFile = Map.empty\<rparr>)"

text \<open>A row literal of the caller (\<^verbatim>\<open>core.Row{...}\<close>) allocates a fresh map.\<close>

definition NewRow :: "Database \<Rightarrow> Row \<Rightarrow> addr \<times> Database" where
  "NewRow db r = (NextFree db, db\<lparr>Heap := (Heap db)(NextFree db := r), NextFree := Suc (NextFree db)\<rparr>)"

text \<open>Reading a key of a Go map without the \<^verbatim>\<open>ok\<close> result: nil when absent.\<close>

definition row_get :: "Row \<Rightarrow> string \<Rightarrow> val" where
  "row_get r k = (case r k of None \<Rightarrow> VNil | Some v \<Rightarrow> v)"

text \<open>Membership in \<^verbatim>\<open>UniqueIndices[name]\<close>; reading a nil inner map finds nothing.\<close>

definition index_has :: "(string \<rightharpoonup> val set) \<Rightarrow> string \<Rightarrow> val \<Rightarrow> bool" where
  "index_has idx n v = (case idx n of None \<Rightarrow> False | Some s \<Rightarrow> v \<in> s)"

text \<open>The first loop of \<^verbatim>\<open>Insert\<close>: the constraint check.\<close>

fun check_constraints :: "Row \<Rightarrow> (string \<rightharpoonup> val set) \<Rightarrow> Field list \<Rightarrow> error option" where
  "check_constraints record idx [] = None"
| "check_constraints record idx (field # flds) =
     (case record (Name field) of
        None \<Rightarrow> Some (''missing field: '' @ Name field)
      | Some v \<Rightarrow>
          if Unique field \<and> index_has idx (Name field) v
          then Some (''unique constraint violation: '' @ Name field)
          else check_constraints record idx flds)"

text \<open>
  The second loop of \<^verbatim>\<open>Insert\<close>: recording the values. Writing into a nil inner
  map panics in Go; the result is then \<open>Inl\<close> of the indices as the panic leaves them.
\<close>

fun apply_unique :: "Row \<Rightarrow> Field list \<Rightarrow> (string \<rightharpoonup> val set) \<Rightarrow> (string \<rightharpoonup> val set) + (string \<rightharpoonup> val set)" where
  "apply_unique record [] idx = Inr idx"
| "apply_unique record (field # flds) idx =
     (if Unique field
      then (case idx (Name field) of
              None \<Rightarrow> Inl idx
            | Some s \<Rightarrow> apply_unique record flds (idx(Name field \<mapsto> insert (row_get record (Name field)) s)))
      else apply_unique record flds idx)"

definition panic_nil_map :: error where
  "panic_nil_map = ''panic: assignment to entry in nil map''"

text \<open>
  The seal block that \<^verbatim>\<open>Insert\<close>, \<^verbatim>\<open>BulkInsert\<close> and \<^verbatim>\<open>Flush\<close> each write out:
  the clump takes the rows of the HotHeap, and the table gets a new HotHeap of
  capacity 1000.
\<close>

definition seal_clump :: "Table \<Rightarrow> time \<Rightarrow> SealedClump" where
  "seal_clump table now =
     \<lparr>ClumpRows = Rows (TblHotHeap table), SealedAt = now,
      Metadata = \<lparr>RowCount = length (Rows (TblHotHeap table)),
                  MetaCreatedAt = CreatedAt (TblHotHeap table),
                  SchemaVersion = Version (TblSchema table)\<rparr>\<rparr>"

definition seal :: "Table \<Rightarrow> time \<Rightarrow> Table" where
  "seal table now =
     table\<lparr>SealedClumps := SealedClumps table @ [seal_clump table now],
           TblHotHeap := NewHotHeap 1000 now\<rparr>"

text \<open>
  Modelled from the spec: \<^verbatim>\<open>storage.PersistClump\<close> belongs to the storage
  package, outside the two source files; the
  spec has it serialise the table name and the clump and append the record to the
  data file. The goroutine that \<^verbatim>\<open>Insert\<close> and \<^verbatim>\<open>BulkInsert\<close> start for it is run at
  once.
\<close>

definition PersistClump :: "Database \<Rightarrow> string \<Rightarrow> SealedClump \<Rightarrow> Database" where
  "PersistClump db tableName clump =
     db\<lparr>File := File db @
        [\<lparr>PTable = tableName, PRows = map (Heap db) (ClumpRows clump),
          PSealedAt = SealedAt clump, PMetadata = Metadata clump\<rparr>]\<rparr>"

definition put_table :: "Database \<Rightarrow> string \<Rightarrow> Table \<Rightarrow> Database" where
  "put_table db tableName table = db\<lparr>Tables := (Tables db)(tableName \<mapsto> table)\<rparr>"

definition append_row :: "Table \<Rightarrow> addr \<Rightarrow> Table" where
  "append_row table a = table\<lparr>TblHotHeap := (TblHotHeap table)\<lparr>Rows := Rows (TblHotHeap table) @ [a]\<rparr>\<rparr>"

definition at_capacity :: "Table \<Rightarrow> bool" where
  "at_capacity table = (int (length (Rows (TblHotHeap table))) \<ge> MaxRows (TblHotHeap table))"

definition seal_if_full :: "Database \<Rightarrow> string \<Rightarrow> Table \<Rightarrow> time \<Rightarrow> Database" where
  "seal_if_full db tableName table now =
     (if at_capacity table
      then PersistClump (put_table db tableName (seal table now)) tableName (seal_clump table now)
      else put_table db tableName table)"

definition Insert :: "Database \<Rightarrow> string \<Rightarrow> addr \<Rightarrow> time \<Rightarrow> error option \<times> Database" where
  "Insert db tableName record now =
     (case Tables db tableName of
        None \<Rightarrow> (Some (''table not found: '' @ tableName), db)
      | Some table \<Rightarrow>
          (case check_constraints (Heap db record) (UniqueIndices table) (Fields (TblSchema table)) of
             Some e \<Rightarrow> (Some e, db)
           | None \<Rightarrow>
               (case apply_unique (Heap db record) (Fields (TblSchema table)) (UniqueIndices table) of
                  Inl idx \<Rightarrow> (Some panic_nil_map, put_table db tableName (table\<lparr>UniqueIndices := idx\<rparr>))
                | Inr idx \<Rightarrow>
                    (None, seal_if_full db tableName
                             (append_row (table\<lparr>UniqueIndices := idx\<rparr>) record) now))))"

definition Flush :: "Database \<Rightarrow> string \<Rightarrow> time \<Rightarrow> error option \<times> Database" where
  "Flush db tableName now =
     (case Tables db tableName of
        None \<Rightarrow> (Some ''table not found'', db)
      | Some table \<Rightarrow>
          if length (Rows (TblHotHeap table)) = 0 then (None, db)
          else (None, PersistClump (put_table db tableName (seal table now)) tableName
                        (seal_clump table now)))"

text \<open>
  \<^verbatim>\<open>BulkInsert\<close>, phase 1. \<open>validate_fields\<close> is the inner loop over the schema for
  row \<open>i\<close>, with \<open>prev\<close> the rows \<open>records[0..i-1]\<close>; \<open>validate_records\<close> is the outer
  loop. Nothing is written.
\<close>

definition digit :: "nat \<Rightarrow> char" where
  "digit k = ''0123456789'' ! k"

fun show_nat :: "nat \<Rightarrow> string" where
  "show_nat n = (if n < 10 then [digit n] else show_nat (n div 10) @ [digit (n mod 10)])"

fun validate_fields :: "(addr \<Rightarrow> Row) \<Rightarrow> (string \<rightharpoonup> val set) \<Rightarrow> addr list \<Rightarrow> nat \<Rightarrow> Row \<Rightarrow> Field list \<Rightarrow> error option" where
  "validate_fields h idx prev i record [] = None"
| "validate_fields h idx prev i record (field # flds) =
     (case record (Name field) of
        None \<Rightarrow> Some (''row '' @ show_nat i @ '': missing field: '' @ Name field)
      | Some v \<Rightarrow>
          if Unique field then
            (if index_has idx (Name field) v
             then Some (''row '' @ show_nat i @ '': unique constraint violation: '' @ Name field)
             else if list_ex (\<lambda>p. row_get (h p) (Name field) = v) prev
             then Some (''row '' @ show_nat i @ '': duplicate value in batch for field: '' @ Name field)
             else validate_fields h idx prev i record flds)
          else validate_fields h idx prev i record flds)"

fun validate_records :: "(addr \<Rightarrow> Row) \<Rightarrow> (string \<rightharpoonup> val set) \<Rightarrow> Field list \<Rightarrow> addr list \<Rightarrow> addr list \<Rightarrow> error option" where
  "validate_records h idx flds prev [] = None"
| "validate_records h idx flds prev (record # records) =
     (case validate_fields h idx prev (length prev) (h record) flds of
        Some e \<Rightarrow> Some e
      | None \<Rightarrow> validate_records h idx flds (prev @ [record]) records)"

text \<open>
  Phase 2: every row's index entries and its append, row by row. \<open>Inl\<close> is the table
  as a panic on a nil inner map leaves it.
\<close>

fun bulk_apply :: "(addr \<Rightarrow> Row) \<Rightarrow> addr list \<Rightarrow> Table \<Rightarrow> Table + Table" where
  "bulk_apply h [] table = Inr table"
| "bulk_apply h (record # records) table =
     (case apply_unique (h record) (Fields (TblSchema table)) (UniqueIndices table) of
        Inl idx \<Rightarrow> Inl (table\<lparr>UniqueIndices := idx\<rparr>)
      | Inr idx \<Rightarrow> bulk_apply h records (append_row (table\<lparr>UniqueIndices := idx\<rparr>) record))"

definition BulkInsert :: "Database \<Rightarrow> string \<Rightarrow> addr list \<Rightarrow> time \<Rightarrow> error option \<times> Database" where
  "BulkInsert db tableName records now =
     (case Tables db tableName of
        None \<Rightarrow> (Some (''table not found: '' @ tableName), db)
      | Some table \<Rightarrow>
          (case validate_records (Heap db) (UniqueIndices table) (Fields (TblSchema table)) [] records of
             Some e \<Rightarrow> (Some e, db)
           | None \<Rightarrow>
               (case bulk_apply (Heap db) records table of
                  Inl table' \<Rightarrow> (Some panic_nil_map, put_table db tableName table')
                | Inr table' \<Rightarrow> (None, seal_if_full db tableName table' now))))"

section \<open>Schemas\<close>

text \<open>\<^verbatim>\<open>SaveSchemas\<close> rewrites the schema file with the schema map.\<close>

definition SaveSchemas :: "Database \<Rightarrow> Database" where
  "SaveSchemas db = db\<lparr>SchemaFile := Schemas db\<rparr>"

text \<open>The empty index of every unique field.\<close>

fun fresh_indices :: "Field list \<Rightarrow> (string \<rightharpoonup> val set) \<Rightarrow> (string \<rightharpoonup> val set)" where
  "fresh_indices [] indices = indices"
| "fresh_indices (f # flds) indices =
     fresh_indices flds (if Unique f then indices(Name f \<mapsto> {}) else indices)"

text \<open>
  \<^verbatim>\<open>UniqueIndices[name][v] = struct{}{}\<close> in the rebuilding loops. They run over the
  fields the indices were just made from, so the inner map is there; the \<open>None\<close>
  case is not reached by them.
\<close>

definition index_add :: "(string \<rightharpoonup> val set) \<Rightarrow> string \<Rightarrow> val \<Rightarrow> (string \<rightharpoonup> val set)" where
  "index_add idx n v = (case idx n of None \<Rightarrow> idx | Some s \<Rightarrow> idx(n \<mapsto> insert v s))"

text \<open>
  The rescans. \<^verbatim>\<open>DefineSchema\<close> reads \<^verbatim>\<open>row[f.Name]\<close> and records nil for a row
  without the field; \<^verbatim>\<open>SyncSchema\<close> records the value only when the field is there.
\<close>

fun index_row :: "Row \<Rightarrow> Field list \<Rightarrow> (string \<rightharpoonup> val set) \<Rightarrow> (string \<rightharpoonup> val set)" where
  "index_row row [] idx = idx"
| "index_row row (f # flds) idx =
     index_row row flds (if Unique f then index_add idx (Name f) (row_get row (Name f)) else idx)"

fun index_row_ok :: "Row \<Rightarrow> Field list \<Rightarrow> (string \<rightharpoonup> val set) \<Rightarrow> (string \<rightharpoonup> val set)" where
  "index_row_ok row [] idx = idx"
| "index_row_ok row (f # flds) idx =
     index_row_ok row flds
       (if Unique f then (case row (Name f) of None \<Rightarrow> idx | Some v \<Rightarrow> index_add idx (Name f) v)
        else idx)"

fun index_rows :: "(addr \<Rightarrow> Row) \<Rightarrow> Field list \<Rightarrow> addr list \<Rightarrow> (string \<rightharpoonup> val set) \<Rightarrow> (string \<rightharpoonup> val set)" where
  "index_rows h flds [] idx = idx"
| "index_rows h flds (a # as) idx = index_rows h flds as (index_row (h a) flds idx)"

fun index_rows_ok :: "(addr \<Rightarrow> Row) \<Rightarrow> Field list \<Rightarrow> addr list \<Rightarrow> (string \<rightharpoonup> val set) \<Rightarrow> (string \<rightharpoonup> val set)" where
  "index_rows_ok h flds [] idx = idx"
| "index_rows_ok h flds (a # as) idx = index_rows_ok h flds as (index_row_ok (h a) flds idx)"

definition clump_rows :: "SealedClump list \<Rightarrow> addr list" where
  "clump_rows clumps = concat (map ClumpRows clumps)"

definition DefineSchema :: "Database \<Rightarrow> string \<Rightarrow> Field list \<Rightarrow> time \<Rightarrow> error option \<times> Database" where
  "DefineSchema db tableName flds now =
     (let schema = \<lparr>Version = 1, Fields = flds\<rparr>;
          db1 = db\<lparr>Schemas := (Schemas db)(tableName \<mapsto> schema)\<rparr>;
          indices = fresh_indices flds Map.empty
      in (None, SaveSchemas
           (case Tables db1 tableName of
              Some table \<Rightarrow>
                put_table db1 tableName (table\<lparr>TblSchema := schema, UniqueIndices := indices\<rparr>)
            | None \<Rightarrow>
                (let table = \<lparr>TblName = tableName, TblSchema = schema,
                              TblHotHeap = NewHotHeap 1000 now, SealedClumps = [],
                              UniqueIndices = indices\<rparr>
                 in case Orphans db1 tableName of
                      None \<Rightarrow> put_table db1 tableName table
                    | Some orphans \<Rightarrow>
                        (put_table db1 tableName
                           (table\<lparr>SealedClumps := orphans,
                                  UniqueIndices := index_rows (Heap db1) flds (clump_rows orphans) indices\<rparr>))
                        \<lparr>Orphans := (Orphans db1)(tableName := None)\<rparr>))))"

record ConflictReport =
  Compatiable :: bool
  Destructive :: bool
  Conflicts :: "string list"

text \<open>
  \<^verbatim>\<open>%v\<close> of a field type. The declaration of \<^verbatim>\<open>FieldType\<close> is in another
  source file; the README numbers the types 0 to 4.
\<close>

fun FieldType_id :: "FieldType \<Rightarrow> nat" where
  "FieldType_id FieldTypeInt = 0"
| "FieldType_id FieldTypeString = 1"
| "FieldType_id FieldTypeBool = 2"
| "FieldType_id FieldTypeFloat = 3"
| "FieldType_id FieldTypeMap = 4"

definition type_mismatch_msg :: "Field \<Rightarrow> Field \<Rightarrow> string" where
  "type_mismatch_msg oldF f =
     ''TYPE_MISMATCH: field '' @ [CHR 0x27] @ Name f @ [CHR 0x27] @ '' change from '' @
     show_nat (FieldType_id (Type oldF)) @ '' to '' @ show_nat (FieldType_id (Type f))"

definition field_add_msg :: "string \<Rightarrow> string" where
  "field_add_msg n = ''FIELD_ADD: new field '' @ [CHR 0x27] @ n @ [CHR 0x27] @ '' will be added''"

definition field_remove_msg :: "string \<Rightarrow> string" where
  "field_remove_msg n =
     ''FIELD_REMOVE: field '' @ [CHR 0x27] @ n @ [CHR 0x27] @ '' and its data will be inaccessible''"

text \<open>\<^verbatim>\<open>currentFieldMap\<close> and \<^verbatim>\<open>newFieldMap\<close>: a later field of the same name overwrites.\<close>

fun field_map :: "Field list \<Rightarrow> (string \<rightharpoonup> Field) \<Rightarrow> (string \<rightharpoonup> Field)" where
  "field_map [] m = m"
| "field_map (f # flds) m = field_map flds (m(Name f \<mapsto> f))"

text \<open>The loop over \<open>newFields\<close>.\<close>

fun diff_new :: "(string \<rightharpoonup> Field) \<Rightarrow> Field list \<Rightarrow> ConflictReport \<Rightarrow> ConflictReport" where
  "diff_new cur [] report = report"
| "diff_new cur (f # flds) report =
     diff_new cur flds
       (case cur (Name f) of
          Some oldF \<Rightarrow>
            if Type oldF \<noteq> Type f
            then report\<lparr>Compatiable := False,
                        Conflicts := Conflicts report @ [type_mismatch_msg oldF f]\<rparr>
            else report
        | None \<Rightarrow> report\<lparr>Conflicts := Conflicts report @ [field_add_msg (Name f)]\<rparr>)"

text \<open>
  The loop over the keys of \<^verbatim>\<open>currentFieldMap\<close>. Go leaves the order of a map range
  open; the model visits each name once, in the order of the last declarations.
\<close>

fun diff_old :: "(string \<rightharpoonup> Field) \<Rightarrow> string list \<Rightarrow> ConflictReport \<Rightarrow> ConflictReport" where
  "diff_old new [] report = report"
| "diff_old new (oldName # names) report =
     diff_old new names
       (case new oldName of
          None \<Rightarrow> report\<lparr>Destructive := True,
                          Conflicts := Conflicts report @ [field_remove_msg oldName]\<rparr>
        | Some _ \<Rightarrow> report)"

definition DiffSchema :: "Database \<Rightarrow> string \<Rightarrow> Field list \<Rightarrow> ConflictReport" where
  "DiffSchema db tableName newFields =
     (case Schemas db tableName of
        None \<Rightarrow> \<lparr>Compatiable = True, Destructive = False,
                  Conflicts = [''TABLE_NEW: table does not exist on disk'']\<rparr>
      | Some currentSchema \<Rightarrow>
          diff_old (field_map newFields Map.empty) (remdups (map Name (Fields currentSchema)))
            (diff_new (field_map (Fields currentSchema) Map.empty) newFields
               \<lparr>Compatiable = True, Destructive = False, Conflicts = []\<rparr>))"

text \<open>\<^verbatim>\<open>%v\<close> of a string slice: the elements between brackets, separated by spaces.\<close>

fun unwords :: "string list \<Rightarrow> string" where
  "unwords [] = []"
| "unwords [x] = x"
| "unwords (x # y # zs) = x @ '' '' @ unwords (y # zs)"

definition SyncSchema :: "Database \<Rightarrow> string \<Rightarrow> Field list \<Rightarrow> error option \<times> Database" where
  "SyncSchema db tableName newFields =
     (let report = DiffSchema db tableName newFields in
      if \<not> Compatiable report
      then (Some (''incompatible schema change: ['' @ unwords (Conflicts report) @ '']''), db)
      else
        (let schema = \<lparr>Version = 1, Fields = newFields\<rparr>;
             db1 = db\<lparr>Schemas := (Schemas db)(tableName \<mapsto> schema)\<rparr>
         in (None, SaveSchemas
              (case Tables db1 tableName of
                 None \<Rightarrow> db1
               | Some table \<Rightarrow>
                   put_table db1 tableName
                     (table\<lparr>TblSchema := schema,
                            UniqueIndices :=
                              index_rows_ok (Heap db1) newFields (Rows (TblHotHeap table))
                                (index_rows_ok (Heap db1) newFields (clump_rows (SealedClumps table))
                                   (fresh_indices newFields Map.empty))\<rparr>)))))"

section \<open>Safety engine\<close>

text \<open>
  Modelled from the spec: \<^verbatim>\<open>BatchBackupForSafety\<close> is in another file of
  the safety package; the
  spec has it wrap each captured row in a SafetyBackup with the current time,
  serialise and encrypt it, and append one record per row to the safety log. It is
  handed row references, so what it serialises is what the store holds for them when
  it is called. Serialising and reading back is taken to return the values as they
  were written.
\<close>

definition BatchBackupForSafety :: "Database \<Rightarrow> string \<Rightarrow> addr list \<Rightarrow> time \<Rightarrow> error option \<times> Database" where
  "BatchBackupForSafety db tableName toBackup now =
     (None, db\<lparr>SafetyFile := SafetyFile db @
        map (\<lambda>a. Ciphertext (Key db)
                   (BackupJSON \<lparr>TableName = tableName, Timestamp = now, Data = Heap db a\<rparr>))
            toBackup\<rparr>)"

text \<open>
  The loop of \<^verbatim>\<open>Update\<close> over the rows of the HotHeap: the filter reads the row
  through its reference, the reference is appended to \<^verbatim>\<open>toBackup\<close>, and the patch is
  written key by key into the map behind \<^verbatim>\<open>table.HotHeap.Rows[i]\<close>, the same
  reference.
\<close>

fun update_rows :: "(Row \<Rightarrow> bool) \<Rightarrow> Row \<Rightarrow> addr list \<Rightarrow> (addr \<Rightarrow> Row) \<Rightarrow> addr list \<Rightarrow> (addr \<Rightarrow> Row) \<times> addr list" where
  "update_rows filterFn update [] h toBackup = (h, toBackup)"
| "update_rows filterFn update (row # rows) h toBackup =
     (if filterFn (h row)
      then update_rows filterFn update rows (h(row := h row ++ update)) (toBackup @ [row])
      else update_rows filterFn update rows h toBackup)"

definition Update :: "Database \<Rightarrow> string \<Rightarrow> (Row \<Rightarrow> bool) \<Rightarrow> Row \<Rightarrow> time \<Rightarrow> error option \<times> Database" where
  "Update db tableName filterFn update now =
     (case Tables db tableName of
        None \<Rightarrow> (Some ''table not found'', db)
      | Some table \<Rightarrow>
          (case update_rows filterFn update (Rows (TblHotHeap table)) (Heap db) [] of
             (h, toBackup) \<Rightarrow>
               if length toBackup > 0
               then BatchBackupForSafety (db\<lparr>Heap := h\<rparr>) tableName toBackup now
               else (None, db\<lparr>Heap := h\<rparr>)))"

definition set_rows :: "Table \<Rightarrow> addr list \<Rightarrow> Table" where
  "set_rows table rows = table\<lparr>TblHotHeap := (TblHotHeap table)\<lparr>Rows := rows\<rparr>\<rparr>"

definition Delete :: "Database \<Rightarrow> string \<Rightarrow> (Row \<Rightarrow> bool) \<Rightarrow> time \<Rightarrow> error option \<times> Database" where
  "Delete db tableName filterFn now =
     (case Tables db tableName of
        None \<Rightarrow> (Some ''table not found'', db)
      | Some table \<Rightarrow>
          (let newRows = [row \<leftarrow> Rows (TblHotHeap table). \<not> filterFn (Heap db row)];
               toBackup = [row \<leftarrow> Rows (TblHotHeap table). filterFn (Heap db row)];
               db1 = put_table db tableName (set_rows table newRows)
           in if length toBackup > 0
              then BatchBackupForSafety db1 tableName toBackup now
              else (None, db1)))"

text \<open>\<^verbatim>\<open>t.Truncate(time.Second)\<close>: rounding down to a multiple of a second.\<close>

definition truncate_second :: "time \<Rightarrow> time" where
  "truncate_second t = t - t mod 1000000000"

text \<open>
  The loop of \<^verbatim>\<open>Restore\<close> over the frames of the safety log; the end of the list is
  the end of the file. A frame that does not open under the database key
  (\<^verbatim>\<open>crypto.Decrypt\<close> fails) or does not parse is skipped. The row of the record
  found is a new map, made by the deserialiser.
\<close>

fun restore_scan :: "Database \<Rightarrow> time \<Rightarrow> frame list \<Rightarrow> error option \<times> Database" where
  "restore_scan db timestamp [] = (Some ''recovery point not found'', db)"
| "restore_scan db timestamp (BadSize e # frames) = (Some e, db)"
| "restore_scan db timestamp (BadSymbol e # frames) = (Some e, db)"
| "restore_scan db timestamp (Ciphertext k Malformed # frames) = restore_scan db timestamp frames"
| "restore_scan db timestamp (Ciphertext k (BackupJSON backup) # frames) =
     (if k \<noteq> Key db then restore_scan db timestamp frames
      else if truncate_second (Timestamp backup) = truncate_second timestamp
      then (case Tables db (TableName backup) of
              Some table \<Rightarrow>
                (case NewRow db (Data backup) of
                   (a, db1) \<Rightarrow> (None, put_table db1 (TableName backup) (append_row table a)))
            | None \<Rightarrow> restore_scan db timestamp frames)
      else restore_scan db timestamp frames)"

definition Restore :: "Database \<Rightarrow> time \<Rightarrow> bool \<Rightarrow> error option \<times> Database" where
  "Restore db timestamp accepted =
     (if \<not> accepted then (Some ''recovery aborted'', db)
      else restore_scan db timestamp (SafetyFile db))"

text \<open>A caller inserting rows one after the other, until an insert fails.\<close>

fun InsertAll :: "Database \<Rightarrow> string \<Rightarrow> (addr \<times> time) list \<Rightarrow> error option \<times> Database" where
  "InsertAll db tableName [] = (None, db)"
| "InsertAll db tableName ((record, now) # rest) =
     (case Insert db tableName record now of
        (Some e, db1) \<Rightarrow> (Some e, db1)
      | (None, db1) \<Rightarrow> InsertAll db1 tableName rest)"

section \<open>A small database\<close>

text \<open>
  The states of a short session, used to run the operations on concrete inputs: a
  new database, the table \<open>products\<close> with a unique \<open>id\<close> and a \<open>price\<close>, one row
  \<open>{id: 1, price: 10}\<close> made by the caller and inserted.
\<close>

definition products_fields :: "Field list" where
  "products_fields =
     [\<lparr>Name = ''id'', Type = FieldTypeInt, Unique = True\<rparr>,
      \<lparr>Name = ''price'', Type = FieldTypeInt, Unique = False\<rparr>]"

definition demo_new :: Database where
  "demo_new = \<lparr>Key = ''k'', Schemas = Map.empty, Tables = Map.empty, Orphans = Map.empty,
                Heap = (\<lambda>_. Map.empty), NextFree = 0, File = [], SafetyFile = [],
                SchemaFile = Map.empty\<rparr>"

definition demo_defined :: Database where
  "demo_defined = snd (DefineSchema demo_new ''products'' products_fields 0)"

definition demo_row :: Database where
  "demo_row = snd (NewRow demo_defined [''id'' \<mapsto> VInt 1, ''price'' \<mapsto> VInt 10])"

definition demo_inserted :: Database where
  "demo_inserted = snd (Insert demo_row ''products'' 0 1)"

definition id_is :: "int \<Rightarrow> Row \<Rightarrow> bool" where
  "id_is n r = (r ''id'' = Some (VInt n))"

text \<open>A table without fields, and a thousand row references with their times.\<close>

definition thousand :: "(addr \<times> time) list" where
  "thousand = map (\<lambda>n. (n, int n)) [0..<1000]"

definition demo_plain :: Database where
  "demo_plain = snd (DefineSchema demo_new ''log'' [] 0)"

section \<open>Schema reports, in the words of the specification\<close>

text \<open>
  The declaration of a name that counts in a field list is its last one (a later
  field of the same name replaces an earlier one); a field has changed type when the
  old list declares its name with another type.
\<close>

definition last_declared :: "Field list \<Rightarrow> string \<Rightarrow> Field option" where
  "last_declared flds n = find (\<lambda>g. Name g = n) (rev flds)"

definition type_changed :: "Field list \<Rightarrow> Field \<Rightarrow> bool" where
  "type_changed old f =
     (case last_declared old (Name f) of None \<Rightarrow> False | Some g \<Rightarrow> Type g \<noteq> Type f)"

definition declares :: "Field list \<Rightarrow> string \<Rightarrow> bool" where
  "declares flds n = list_ex (\<lambda>g. Name g = n) flds"

text \<open>The two schemas of the example, and the two proposals.\<close>

definition id_name_fields :: "Field list" where
  "id_name_fields = [\<lparr>Name = ''id'', Type = FieldTypeInt, Unique = False\<rparr>,
                     \<lparr>Name = ''name'', Type = FieldTypeString, Unique = False\<rparr>]"

definition demo_users :: Database where
  "demo_users = snd (DefineSchema demo_new ''users'' id_name_fields 0)"


definition id_name_int :: "Field list" where
  "id_name_int = [\<lparr>Name = ''id'', Type = FieldTypeInt, Unique = False\<rparr>,
                  \<lparr>Name = ''name'', Type = FieldTypeInt, Unique = False\<rparr>]"

definition id_only :: "Field list" where
  "id_only = [\<lparr>Name = ''id'', Type = FieldTypeInt, Unique = False\<rparr>]"

section \<open>More rows and a proposal\<close>

text \<open>
  Four more rows of the caller: a new \<open>id\<close>, the same \<open>id\<close> again, the \<open>id\<close> of the
  row already in the table, and a row without \<open>price\<close>; and a proposal that turns
  \<open>price\<close> into a string.
\<close>

definition demo_batch :: Database where
  "demo_batch =
     snd (NewRow (snd (NewRow (snd (NewRow (snd (NewRow demo_inserted
       [''id'' \<mapsto> VInt 2, ''price'' \<mapsto> VInt 20]))
       [''id'' \<mapsto> VInt 2, ''price'' \<mapsto> VInt 30]))
       [''id'' \<mapsto> VInt 1, ''price'' \<mapsto> VInt 5]))
       [''id'' \<mapsto> VInt 4])"

definition price_as_string :: "Field list" where
  "price_as_string =
     [\<lparr>Name = ''id'', Type = FieldTypeInt, Unique = True\<rparr>,
      \<lparr>Name = ''price'', Type = FieldTypeString, Unique = False\<rparr>]"

section \<open>Recovery, in the words of the specification\<close>

text \<open>
  What Restore can do with a frame of the log. A frame is unreadable when its size
  field or one of its symbols cannot be decoded. The record of a frame is the backup
  it holds, when it opens under the database key and parses. A record matches a
  requested time when both truncate to the same second. A frame is restorable when
  its record matches and names a table the database defines; a frame is passed over
  when it is readable and not restorable.
\<close>

fun unreadable :: "frame \<Rightarrow> bool" where
  "unreadable (BadSize e) = True"
| "unreadable (BadSymbol e) = True"
| "unreadable (Ciphertext k p) = False"

fun record_of :: "Database \<Rightarrow> frame \<Rightarrow> SafetyBackup option" where
  "record_of db (Ciphertext k (BackupJSON b)) = (if k = Key db then Some b else None)"
| "record_of db (Ciphertext k Malformed) = None"
| "record_of db (BadSize e) = None"
| "record_of db (BadSymbol e) = None"

definition matches :: "time \<Rightarrow> SafetyBackup \<Rightarrow> bool" where
  "matches timestamp b = (truncate_second (Timestamp b) = truncate_second timestamp)"

definition restorable :: "Database \<Rightarrow> time \<Rightarrow> frame \<Rightarrow> bool" where
  "restorable db timestamp fr =
     (case record_of db fr of
        None \<Rightarrow> False
      | Some b \<Rightarrow> matches timestamp b \<and> Tables db (TableName b) \<noteq> None)"

definition passed_over :: "Database \<Rightarrow> time \<Rightarrow> frame \<Rightarrow> bool" where
  "passed_over db timestamp fr = (\<not> unreadable fr \<and> \<not> restorable db timestamp fr)"

text \<open>
  The database after the row of a backup is reinstated in its table: the row is a
  new map at the end of the table's HotHeap; the unique indices are as they were.
\<close>

definition reinstate :: "Database \<Rightarrow> SafetyBackup \<Rightarrow> Table \<Rightarrow> Database" where
  "reinstate db b table =
     db\<lparr>Tables := (Tables db)(TableName b \<mapsto>
            table\<lparr>TblHotHeap := (TblHotHeap table)\<lparr>Rows := Rows (TblHotHeap table) @ [NextFree db]\<rparr>\<rparr>),
        Heap := (Heap db)(NextFree db := Data b),
        NextFree := Suc (NextFree db)\<rparr>"

text \<open>The first record of the log that opens, parses and matches the requested time.\<close>

definition first_match :: "Database \<Rightarrow> time \<Rightarrow> SafetyBackup option" where
  "first_match db timestamp =
     (case find (\<lambda>fr. case record_of db fr of None \<Rightarrow> False | Some b \<Rightarrow> matches timestamp b)
             (SafetyFile db) of
        None \<Rightarrow> None
      | Some fr \<Rightarrow> record_of db fr)"

text \<open>
  The session goes on: the row is updated, which writes the safety log. And a log
  that starts with a record of a table \<open>ghost\<close> this database does not define,
  written in the same second as the record of \<open>products\<close> after it.
\<close>

definition demo_updated :: Database where
  "demo_updated =
     snd (Update demo_inserted ''products'' (id_is 1) [''price'' \<mapsto> VInt 99] 7000000000)"

definition ghost_backup :: SafetyBackup where
  "ghost_backup = \<lparr>TableName = ''ghost'', Timestamp = 7000000003, Data = [''id'' \<mapsto> VInt 7]\<rparr>"

definition products_backup :: SafetyBackup where
  "products_backup =
     \<lparr>TableName = ''products'', Timestamp = 7000000005, Data = [''id'' \<mapsto> VInt 8, ''price'' \<mapsto> VInt 80]\<rparr>"

definition demo_ghost :: Database where
  "demo_ghost =
     demo_inserted\<lparr>SafetyFile := [Ciphertext ''k'' (BackupJSON ghost_backup),
                                   Ciphertext ''k'' (BackupJSON products_backup)]\<rparr>"

text \<open>
  The logical row sequence of a table, as \<^verbatim>\<open>DumpAsJSON\<close> collects it (sealed clumps
  in seal order, then the HotHeap), and the values one field has along it.
\<close>

definition all_rows :: "Table \<Rightarrow> addr list" where
  "all_rows table = clump_rows (SealedClumps table) @ Rows (TblHotHeap table)"

definition column :: "Database \<Rightarrow> string \<Rightarrow> string \<Rightarrow> val list option" where
  "column db tableName k =
     (case Tables db tableName of
        None \<Rightarrow> None
      | Some table \<Rightarrow> Some (map (\<lambda>a. row_get (Heap db a) k) (all_rows table)))"

text \<open>The values a field has in the records of the safety log, in log order.\<close>

definition logged_values :: "Database \<Rightarrow> string \<Rightarrow> val list" where
  "logged_values db k =
     map (\<lambda>b. row_get (Data b) k) (List.map_filter (record_of db) (SafetyFile db))"

text \<open>The row is deleted instead of updated.\<close>

definition demo_deleted :: Database where
  "demo_deleted = snd (Delete demo_inserted ''products'' (id_is 1) 7000000000)"

section \<open>The unique-index invariant, in the words of the specification\<close>

text \<open>
  The values a field has across a row sequence; a table's unique indices are exact
  when the index of every unique field of its schema is the set of the values the
  field has across all rows of the table, sealed and live; a database's are when
  every table's are.
\<close>

definition field_values :: "(addr \<Rightarrow> Row) \<Rightarrow> addr list \<Rightarrow> string \<Rightarrow> val set" where
  "field_values h rows n = Option.these ((\<lambda>a. h a n) ` set rows)"

definition index_exact :: "(addr \<Rightarrow> Row) \<Rightarrow> Table \<Rightarrow> bool" where
  "index_exact h table =
     (\<forall>f \<in> set (Fields (TblSchema table)).
        Unique f \<longrightarrow>
        UniqueIndices table (Name f) = Some (field_values h (all_rows table) (Name f)))"

definition db_index_exact :: "Database \<Rightarrow> bool" where
  "db_index_exact db =
     (\<forall>tableName table. Tables db tableName = Some table \<longrightarrow> index_exact (Heap db) table)"

text \<open>The names of the unique fields of a field list.\<close>

definition unique_names :: "Field list \<Rightarrow> string set" where
  "unique_names flds = Name ` {f \<in> set flds. Unique f}"

text \<open>
  The operations that keep the indices: a sequence of them is performed as long as
  each DefineSchema in it is for a name that has neither a table nor orphaned clumps.
\<close>

datatype operation =
    DoDefineSchema string "Field list" time
  | DoInsert string addr time
  | DoBulkInsert string "addr list" time
  | DoSyncSchema string "Field list"

fun perform :: "Database \<Rightarrow> operation \<Rightarrow> Database" where
  "perform db (DoDefineSchema tableName flds now) = snd (DefineSchema db tableName flds now)"
| "perform db (DoInsert tableName record now) = snd (Insert db tableName record now)"
| "perform db (DoBulkInsert tableName records now) = snd (BulkInsert db tableName records now)"
| "perform db (DoSyncSchema tableName flds) = snd (SyncSchema db tableName flds)"

fun defines_new :: "Database \<Rightarrow> operation \<Rightarrow> bool" where
  "defines_new db (DoDefineSchema tableName flds now) =
     (Tables db tableName = None \<and> Orphans db tableName = None)"
| "defines_new db (DoInsert tableName record now) = True"
| "defines_new db (DoBulkInsert tableName records now) = True"
| "defines_new db (DoSyncSchema tableName flds) = True"

fun perform_all :: "Database \<Rightarrow> operation list \<Rightarrow> Database option" where
  "perform_all db [] = Some db"
| "perform_all db (x # xs) =
     (if defines_new db x then perform_all (perform db x) xs else None)"

definition index_of :: "Database \<Rightarrow> string \<Rightarrow> string \<Rightarrow> val set option" where
  "index_of db tableName n =
     (case Tables db tableName of None \<Rightarrow> None | Some table \<Rightarrow> UniqueIndices table n)"

definition values_of :: "Database \<Rightarrow> string \<Rightarrow> string \<Rightarrow> val set" where
  "values_of db tableName n =
     (case Tables db tableName of
        None \<Rightarrow> {}
      | Some table \<Rightarrow> field_values (Heap db) (all_rows table) n)"

text \<open>
  A database with two rows of the caller and no table yet, and a sequence of
  operations on it.
\<close>

definition demo_rows :: Database where
  "demo_rows =
     snd (NewRow (snd (NewRow demo_new [''id'' \<mapsto> VInt 1, ''price'' \<mapsto> VInt 10]))
            [''id'' \<mapsto> VInt 2, ''price'' \<mapsto> VInt 20])"

definition demo_ops :: "operation list" where
  "demo_ops =
     [DoDefineSchema ''products'' products_fields 0,
      DoInsert ''products'' 0 1,
      DoBulkInsert ''products'' [1] 2,
      DoSyncSchema ''products'' products_fields]"

definition demo_performed :: Database where
  "demo_performed =
     perform (perform (perform (perform demo_rows
       (DoDefineSchema ''products'' products_fields 0))
       (DoInsert ''products'' 0 1))
       (DoBulkInsert ''products'' [1] 2))
       (DoSyncSchema ''products'' products_fields)"

text \<open>
  Three more continuations of the session after the insert: the schema is defined
  again, the \<open>id\<close> of the row is updated, and the deleted row is restored after a
  SyncSchema has rebuilt the indices.
\<close>

definition demo_redefined :: Database where
  "demo_redefined = snd (DefineSchema demo_inserted ''products'' products_fields 9)"

definition demo_id_updated :: Database where
  "demo_id_updated = snd (Update demo_inserted ''products'' (id_is 1) [''id'' \<mapsto> VInt 5] 9)"

definition demo_resynced_restored :: Database where
  "demo_resynced_restored =
     snd (Restore (snd (SyncSchema demo_deleted ''products'' products_fields)) 7000000000 True)"

section \<open>Symbolic codec\<close>

text \<open>
  Modelled from the spec: the package \<^verbatim>\<open>crypto\<close> (\<^verbatim>\<open>EncodeToEmojis\<close>, \<^verbatim>\<open>DecodeOne\<close>
  and the table of symbols) is outside the two source files. The spec has a fixed table
  that gives each of the 256 byte values one of 256 distinct printable symbols;
  encoding replaces every byte by its symbol, and \<open>DecodeOne\<close> reads one symbol from
  a stream and returns the byte whose symbol it is, failing with \<open>UnknownSymbol\<close> when
  the symbol is not in the table. A symbol is taken as one token of the stream, named
  by its code point; the table is a parameter, the symbol of byte \<open>b\<close> being its
  entry number \<open>b\<close>.
\<close>

type_synonym byte = "8 word"
type_synonym symbol = nat

datatype codec_error = UnknownSymbol | EndOfStream

definition valid_table :: "symbol list \<Rightarrow> bool" where
  "valid_table tbl = (length tbl = 256 \<and> distinct tbl)"

definition EncodeToEmojis :: "symbol list \<Rightarrow> byte list \<Rightarrow> symbol list" where
  "EncodeToEmojis tbl bs = map (\<lambda>b. tbl ! unat b) bs"

fun lookup_symbol :: "symbol list \<Rightarrow> symbol \<Rightarrow> nat option" where
  "lookup_symbol [] s = None"
| "lookup_symbol (t # ts) s = (if t = s then Some 0 else map_option Suc (lookup_symbol ts s))"

definition DecodeOne :: "symbol list \<Rightarrow> symbol list \<Rightarrow> codec_error + byte \<times> symbol list" where
  "DecodeOne tbl stream =
     (case stream of
        [] \<Rightarrow> Inl EndOfStream
      | s # rest \<Rightarrow>
          (case lookup_symbol tbl s of
             None \<Rightarrow> Inl UnknownSymbol
           | Some i \<Rightarrow> Inr (word_of_nat i, rest)))"

text \<open>Decoding a whole stream: \<open>DecodeOne\<close> until the stream is used up.\<close>

function decode :: "symbol list \<Rightarrow> symbol list \<Rightarrow> codec_error + byte list" where
  "decode tbl stream =
     (if stream = [] then Inr []
      else (case DecodeOne tbl stream of
              Inl e \<Rightarrow> Inl e
            | Inr (b, rest) \<Rightarrow>
                (case decode tbl rest of Inl e \<Rightarrow> Inl e | Inr bs \<Rightarrow> Inr (b # bs))))"
  by pat_completeness auto
termination
  by (relation "measure (\<lambda>(tbl, stream). length stream)")
    (auto simp: DecodeOne_def split: list.splits option.splits)

text \<open>A table for the examples: the 256 code points from U+1F600 on.\<close>

definition demo_table :: "symbol list" where
  "demo_table = map (\<lambda>i. 128512 + i) [0..<256]"

section \<open>Logs with frames of every kind\<close>

text \<open>The decoding error of an unreadable frame.\<close>

fun frame_error :: "frame \<Rightarrow> error option" where
  "frame_error (BadSize e) = Some e"
| "frame_error (BadSymbol e) = Some e"
| "frame_error (Ciphertext k p) = None"

text \<open>
  A log of six frames: a record written under another key, a frame that does not
  parse, a record of an earlier second, the record of the undefined table \<open>ghost\<close>,
  a record of \<open>products\<close> of the same second, and a frame cut off within its
  symbols. And a log that is cut off right after the record of \<open>ghost\<close>.
\<close>

definition earlier_backup :: SafetyBackup where
  "earlier_backup =
     \<lparr>TableName = ''products'', Timestamp = 3000000000, Data = [''id'' \<mapsto> VInt 3, ''price'' \<mapsto> VInt 30]\<rparr>"

definition demo_long_log :: Database where
  "demo_long_log =
     demo_inserted\<lparr>SafetyFile := [Ciphertext ''other'' (BackupJSON products_backup),
                                   Ciphertext ''k'' Malformed,
                                   Ciphertext ''k'' (BackupJSON earlier_backup),
                                   Ciphertext ''k'' (BackupJSON ghost_backup),
                                   Ciphertext ''k'' (BackupJSON products_backup),
                                   BadSymbol ''unexpected EOF'']\<rparr>"

definition demo_cut_log :: Database where
  "demo_cut_log =
     demo_inserted\<lparr>SafetyFile := [Ciphertext ''k'' (BackupJSON ghost_backup),
                                   BadSymbol ''unexpected EOF'']\<rparr>"

section \<open>Invalid rows of a batch, in the words of the specification\<close>

text \<open>
  A row of a batch is invalid for a table when some field of the schema is missing
  from it, or it gives a unique field a value that a row of the table, sealed or
  live, already has in that field, or it gives a unique field the value an earlier
  row of the batch gives it.
\<close>

definition field_violation :: "(addr \<Rightarrow> Row) \<Rightarrow> Table \<Rightarrow> addr list \<Rightarrow> addr \<Rightarrow> Field \<Rightarrow> bool" where
  "field_violation h table earlier record f =
     (h record (Name f) = None
      \<or> (Unique f \<and> row_get (h record) (Name f) \<in> field_values h (all_rows table) (Name f))
      \<or> (Unique f \<and> list_ex (\<lambda>p. row_get (h p) (Name f) = row_get (h record) (Name f)) earlier))"

definition row_invalid :: "(addr \<Rightarrow> Row) \<Rightarrow> Table \<Rightarrow> addr list \<Rightarrow> addr \<Rightarrow> bool" where
  "row_invalid h table earlier record =
     list_ex (field_violation h table earlier record) (Fields (TblSchema table))"

definition batch_invalid_at :: "Database \<Rightarrow> string \<Rightarrow> addr list \<Rightarrow> nat \<Rightarrow> bool" where
  "batch_invalid_at db tableName records i =
     (case Tables db tableName of
        None \<Rightarrow> False
      | Some table \<Rightarrow>
          i < length records \<and> row_invalid (Heap db) table (take i records) (records ! i))"

text \<open>
  The same with the unique index in the place of the rows: the value of a unique
  field is taken when the index of the field holds it.
\<close>

definition field_violation_by_index :: "(addr \<Rightarrow> Row) \<Rightarrow> (string \<rightharpoonup> val set) \<Rightarrow> addr list \<Rightarrow> addr \<Rightarrow> Field \<Rightarrow> bool" where
  "field_violation_by_index h idx earlier record f =
     (h record (Name f) = None
      \<or> (Unique f \<and> index_has idx (Name f) (row_get (h record) (Name f)))
      \<or> (Unique f \<and> list_ex (\<lambda>p. row_get (h p) (Name f) = row_get (h record) (Name f)) earlier))"

definition row_invalid_by_index :: "(addr \<Rightarrow> Row) \<Rightarrow> Table \<Rightarrow> addr list \<Rightarrow> addr \<Rightarrow> bool" where
  "row_invalid_by_index h table earlier record =
     list_ex (field_violation_by_index h (UniqueIndices table) earlier record)
       (Fields (TblSchema table))"

text \<open>
  After the schema of \<open>products\<close> was defined again over the inserted row, the
  caller makes a row with the \<open>id\<close> of that row.
\<close>

definition demo_redefined_row :: Database where
  "demo_redefined_row = snd (NewRow demo_redefined [''id'' \<mapsto> VInt 1, ''price'' \<mapsto> VInt 7])"

lemma Open_demo_new: "Open ''k'' = Inr demo_new"
  by (simp add: Open_def demo_new_def)

section \<open>Flush\<close>

text \<open>
  C9: for a table whose live HotHeap holds no row, Flush returns success and leaves
  the whole database as it was: no clump is sealed, and the table's SealedClumps, its
  HotHeap and the data file are unchanged.
\<close>

theorem Flush_empty_HotHeap_noop:
  assumes "Tables db tableName = Some table"
    and "Rows (TblHotHeap table) = []"
  shows "Flush db tableName now = (None, db)"
  using assms by (simp add: Flush_def)

theorem Flush_empty_HotHeap_noop_witness:
  "(\<exists>table. Tables demo_defined ''products'' = Some table \<and> Rows (TblHotHeap table) = [])
   \<and> Flush demo_defined ''products'' 3 = (None, demo_defined)"
proof -
  obtain table where t: "Tables demo_defined ''products'' = Some table"
    and r: "Rows (TblHotHeap table) = []"
    by (simp add: demo_defined_def demo_new_def DefineSchema_def Let_def SaveSchemas_def
        put_table_def NewHotHeap_def)
  from t r Flush_empty_HotHeap_noop [OF t r, of 3] show ?thesis by blast
qed

section \<open>Sealing at capacity\<close>

lemma Insert_ok_table:
  assumes "Insert db tableName record now = (None, db1)"
    and "Tables db tableName = Some table"
  shows "\<exists>idx. Tables db1 tableName =
           Some (if at_capacity (append_row (table\<lparr>UniqueIndices := idx\<rparr>) record)
                 then seal (append_row (table\<lparr>UniqueIndices := idx\<rparr>) record) now
                 else append_row (table\<lparr>UniqueIndices := idx\<rparr>) record)"
  using assms
  by (auto simp: Insert_def seal_if_full_def put_table_def PersistClump_def
      split: option.splits sum.splits if_splits)

lemma Insert_ok_below:
  assumes "Insert db tableName record now = (None, db1)"
    and "Tables db tableName = Some table"
    and "int (length (Rows (TblHotHeap table))) + 1 < MaxRows (TblHotHeap table)"
  shows "\<exists>table1. Tables db1 tableName = Some table1
           \<and> Rows (TblHotHeap table1) = Rows (TblHotHeap table) @ [record]
           \<and> SealedClumps table1 = SealedClumps table
           \<and> MaxRows (TblHotHeap table1) = MaxRows (TblHotHeap table)"
  using Insert_ok_table [OF assms(1,2)] assms(3)
  by (auto simp: at_capacity_def append_row_def)

lemma Insert_ok_reaching:
  assumes "Insert db tableName record now = (None, db1)"
    and "Tables db tableName = Some table"
    and "int (length (Rows (TblHotHeap table))) + 1 \<ge> MaxRows (TblHotHeap table)"
  shows "\<exists>table1. Tables db1 tableName = Some table1
           \<and> Rows (TblHotHeap table1) = []
           \<and> SealedClumps table1 = SealedClumps table @
                [\<lparr>ClumpRows = Rows (TblHotHeap table) @ [record], SealedAt = now,
                  Metadata = \<lparr>RowCount = Suc (length (Rows (TblHotHeap table))),
                               MetaCreatedAt = CreatedAt (TblHotHeap table),
                               SchemaVersion = Version (TblSchema table)\<rparr>\<rparr>]
           \<and> MaxRows (TblHotHeap table1) = 1000"
  using Insert_ok_table [OF assms(1,2)] assms(3)
  by (auto simp: at_capacity_def append_row_def seal_def seal_clump_def NewHotHeap_def)

lemma InsertAll_below:
  assumes "InsertAll db tableName rows = (None, db1)"
    and "Tables db tableName = Some table"
    and "int (length (Rows (TblHotHeap table))) + int (length rows) < MaxRows (TblHotHeap table)"
  shows "\<exists>table1. Tables db1 tableName = Some table1
           \<and> Rows (TblHotHeap table1) = Rows (TblHotHeap table) @ map fst rows
           \<and> SealedClumps table1 = SealedClumps table
           \<and> MaxRows (TblHotHeap table1) = MaxRows (TblHotHeap table)"
  using assms
proof (induction rows arbitrary: db table)
  case Nil
  then show ?case by simp
next
  case (Cons x rows)
  obtain r n where x: "x = (r, n)" by (cases x)
  from Cons.prems(1) x obtain db2 where
    i: "Insert db tableName r n = (None, db2)" and
    r: "InsertAll db2 tableName rows = (None, db1)"
    by (auto split: prod.splits option.splits)
  from Cons.prems(3) have "int (length (Rows (TblHotHeap table))) + 1 < MaxRows (TblHotHeap table)"
    by simp
  from Insert_ok_below [OF i Cons.prems(2) this] obtain table2 where
    t2: "Tables db2 tableName = Some table2"
    "Rows (TblHotHeap table2) = Rows (TblHotHeap table) @ [r]"
    "SealedClumps table2 = SealedClumps table"
    "MaxRows (TblHotHeap table2) = MaxRows (TblHotHeap table)"
    by blast
  from Cons.prems(3) t2 have
    "int (length (Rows (TblHotHeap table2))) + int (length rows) < MaxRows (TblHotHeap table2)"
    by simp
  from Cons.IH [OF r t2(1) this] t2 x show ?case by auto
qed

lemma InsertAll_append:
  "InsertAll db tableName (xs @ ys) =
     (case InsertAll db tableName xs of
        (Some e, db1) \<Rightarrow> (Some e, db1)
      | (None, db1) \<Rightarrow> InsertAll db1 tableName ys)"
  by (induction xs arbitrary: db) (auto split: prod.splits option.splits)

text \<open>
  C4: sealing triggers exactly at capacity, checked after the insert. Inserting
  \<open>capacity\<close> rows into an empty table (no clump, empty HotHeap) yields exactly one
  SealedClump, holding those \<open>capacity\<close> rows, and an empty HotHeap; one more
  inserted row then leaves that single clump and a HotHeap of exactly 1 row.
\<close>

theorem seal_at_capacity:
  assumes tbl: "Tables db tableName = Some table"
    and empty: "Rows (TblHotHeap table) = []" "SealedClumps table = []"
    and cap: "MaxRows (TblHotHeap table) = capacity" "1 \<le> capacity"
    and len: "length rows = nat capacity"
    and ok: "InsertAll db tableName rows = (None, db1)"
  shows "\<exists>table1 clump.
           Tables db1 tableName = Some table1
           \<and> SealedClumps table1 = [clump]
           \<and> ClumpRows clump = map fst rows
           \<and> RowCount (Metadata clump) = nat capacity
           \<and> Rows (TblHotHeap table1) = []
           \<and> (\<forall>record now db2. Insert db1 tableName record now = (None, db2) \<longrightarrow>
                 (\<exists>table2. Tables db2 tableName = Some table2
                    \<and> SealedClumps table2 = [clump]
                    \<and> Rows (TblHotHeap table2) = [record]))"
proof -
  from len cap(2) have "rows \<noteq> []" by auto
  then obtain xs x where rows: "rows = xs @ [x]" by (metis rev_exhaust)
  obtain r n where x: "x = (r, n)" by (cases x)
  from ok rows x obtain dbm where
    m: "InsertAll db tableName xs = (None, dbm)" and
    l: "Insert dbm tableName r n = (None, db1)"
    by (auto simp: InsertAll_append split: prod.splits option.splits)
  from len rows cap empty have "int (length (Rows (TblHotHeap table))) + int (length xs) < MaxRows (TblHotHeap table)"
    by simp
  from InsertAll_below [OF m tbl this] empty obtain tablem where
    tm: "Tables dbm tableName = Some tablem" "Rows (TblHotHeap tablem) = map fst xs"
      "SealedClumps tablem = []" "MaxRows (TblHotHeap tablem) = capacity"
    using cap by auto
  from len rows tm cap have "int (length (Rows (TblHotHeap tablem))) + 1 \<ge> MaxRows (TblHotHeap tablem)"
    by simp
  from Insert_ok_reaching [OF l tm(1) this] obtain table1 where
    t1: "Tables db1 tableName = Some table1" "Rows (TblHotHeap table1) = []"
      "SealedClumps table1 =
         [\<lparr>ClumpRows = map fst xs @ [r], SealedAt = n,
           Metadata = \<lparr>RowCount = Suc (length xs),
                        MetaCreatedAt = CreatedAt (TblHotHeap tablem),
                        SchemaVersion = Version (TblSchema tablem)\<rparr>\<rparr>]"
      "MaxRows (TblHotHeap table1) = 1000"
    using tm by auto
  have more: "\<exists>table2. Tables db2 tableName = Some table2
                    \<and> SealedClumps table2 = SealedClumps table1
                    \<and> Rows (TblHotHeap table2) = [r']"
    if "Insert db1 tableName r' n' = (None, db2)" for r' n' db2
    using Insert_ok_below [OF that t1(1)] t1 by auto
  from t1 rows x len more show ?thesis by auto
qed


lemma Insert_no_fields:
  assumes "Tables db tableName = Some table" and "Fields (TblSchema table) = []"
  shows "\<exists>db1 table1. Insert db tableName r n = (None, db1)
           \<and> Tables db1 tableName = Some table1 \<and> Fields (TblSchema table1) = []"
  using assms
  by (simp add: Insert_def seal_if_full_def put_table_def PersistClump_def seal_def append_row_def)

lemma InsertAll_no_fields:
  assumes "Tables db tableName = Some table" and "Fields (TblSchema table) = []"
  shows "\<exists>db1 table1. InsertAll db tableName rows = (None, db1)
           \<and> Tables db1 tableName = Some table1 \<and> Fields (TblSchema table1) = []"
  using assms
proof (induction rows arbitrary: db table)
  case Nil
  then show ?case by simp
next
  case (Cons x rows)
  obtain r n where x: "x = (r, n)" by (cases x)
  from Insert_no_fields [OF Cons.prems, of r n] obtain db2 table2 where
    i: "Insert db tableName r n = (None, db2)" "Tables db2 tableName = Some table2"
      "Fields (TblSchema table2) = []"
    by blast
  from Cons.IH [OF i(2,3)] i(1) x show ?case by simp
qed

theorem seal_at_capacity_witness:
  "\<exists>table db1 table1 clump db2 table2.
     Tables demo_plain ''log'' = Some table \<and> Rows (TblHotHeap table) = []
     \<and> SealedClumps table = [] \<and> MaxRows (TblHotHeap table) = 1000
     \<and> length thousand = nat 1000
     \<and> InsertAll demo_plain ''log'' thousand = (None, db1)
     \<and> Tables db1 ''log'' = Some table1 \<and> SealedClumps table1 = [clump]
     \<and> ClumpRows clump = map fst thousand \<and> RowCount (Metadata clump) = 1000
     \<and> Rows (TblHotHeap table1) = []
     \<and> Insert db1 ''log'' 1000 1000 = (None, db2)
     \<and> Tables db2 ''log'' = Some table2 \<and> SealedClumps table2 = [clump]
     \<and> Rows (TblHotHeap table2) = [1000]"
proof -
  obtain table where t: "Tables demo_plain ''log'' = Some table"
    and e: "Rows (TblHotHeap table) = []" "SealedClumps table = []"
    and c: "MaxRows (TblHotHeap table) = 1000"
    and f: "Fields (TblSchema table) = []"
    by (simp add: demo_plain_def demo_new_def DefineSchema_def Let_def SaveSchemas_def
        put_table_def NewHotHeap_def)
  have l: "length thousand = nat 1000" by (simp add: thousand_def)
  from InsertAll_no_fields [OF t f] obtain db1 t1 where
    ok: "InsertAll demo_plain ''log'' thousand = (None, db1)"
    and t1: "Tables db1 ''log'' = Some t1" "Fields (TblSchema t1) = []" by blast
  from Insert_no_fields [OF t1, of 1000 1000] obtain db2 where
    i: "Insert db1 ''log'' 1000 1000 = (None, db2)" by blast
  from seal_at_capacity [OF t e c _ l ok] i t e c l ok show ?thesis by fastforce
qed

section \<open>Update, its backup, and Restore\<close>

lemmas demo_unfold =
  demo_updated_def demo_deleted_def demo_batch_def demo_inserted_def demo_row_def
  demo_defined_def demo_new_def
  DefineSchema_def Insert_def NewRow_def Update_def Delete_def Restore_def Flush_def
  BulkInsert_def SyncSchema_def DiffSchema_def BatchBackupForSafety_def
  id_is_def Let_def SaveSchemas_def put_table_def set_rows_def NewHotHeap_def
  products_fields_def price_as_string_def index_has_def row_get_def seal_if_full_def
  at_capacity_def append_row_def truncate_second_def column_def all_rows_def clump_rows_def

text \<open>
  C1 on the code. The table holds one row with \<open>price = 10\<close>. Update to
  \<open>price = 99\<close> succeeds, and Restore with the time of the update and
  accepted = true succeeds; the table then holds two rows, and both have
  \<open>price = 99\<close>: the row in the safety log is the patched one, since the
  reference kept in \<^verbatim>\<open>toBackup\<close> is the reference the patch is written through.
\<close>

theorem Update_backup_holds_patched_row:
  "column demo_inserted ''products'' ''price'' = Some [VInt 10]
   \<and> fst (Update demo_inserted ''products'' (id_is 1) [''price'' \<mapsto> VInt 99] 7000000000) = None
   \<and> column demo_updated ''products'' ''price'' = Some [VInt 99]
   \<and> logged_values demo_updated ''price'' = [VInt 99]
   \<and> fst (Restore demo_updated 7000000000 True) = None
   \<and> column (snd (Restore demo_updated 7000000000 True)) ''products'' ''price''
       = Some [VInt 99, VInt 99]"
  by (simp add: demo_unfold logged_values_def List.map_filter_simps)

text \<open>Delete does not write to the row, and its backup gives the row back.\<close>

lemma Delete_backup_holds_deleted_row:
  "fst (Delete demo_inserted ''products'' (id_is 1) 7000000000) = None
   \<and> column demo_deleted ''products'' ''price'' = Some []
   \<and> logged_values demo_deleted ''price'' = [VInt 10]
   \<and> fst (Restore demo_deleted 7000000000 True) = None
   \<and> column (snd (Restore demo_deleted 7000000000 True)) ''products'' ''price''
       = Some [VInt 10]"
  by (simp add: demo_unfold logged_values_def List.map_filter_simps)

section \<open>Error strings\<close>

text \<open>
  C7 on the code. For a table that is not defined, Insert and BulkInsert return
  the established form with the name; Flush, Update and Delete return the string
  without colon and name. BulkInsert prefixes the row number to the missing-field
  error, and the type mismatch that SyncSchema refuses is reported as an
  incompatible schema change.
\<close>

theorem error_strings_of_the_operations:
  "fst (Insert demo_defined ''ghost'' 0 0) = Some ''table not found: ghost''
   \<and> fst (BulkInsert demo_defined ''ghost'' [0] 0) = Some ''table not found: ghost''
   \<and> fst (Flush demo_defined ''ghost'' 0) = Some ''table not found''
   \<and> fst (Update demo_defined ''ghost'' (id_is 1) Map.empty 0) = Some ''table not found''
   \<and> fst (Delete demo_defined ''ghost'' (id_is 1) 0) = Some ''table not found''
   \<and> fst (Insert demo_batch ''products'' 4 9) = Some ''missing field: price''
   \<and> fst (BulkInsert demo_batch ''products'' [1, 4] 9) = Some ''row 1: missing field: price''
   \<and> fst (SyncSchema demo_batch ''products'' price_as_string) =
        Some (''incompatible schema change: [TYPE_MISMATCH: field '' @ [CHR 0x27] @ ''price'' @
              [CHR 0x27] @ '' change from 0 to 1]'')"
  by (simp add: demo_unfold type_mismatch_msg_def digit_def)

section \<open>Unique indices\<close>

lemma unique_names_simps [simp]:
  "unique_names [] = {}"
  "unique_names (f # flds) = (if Unique f then insert (Name f) (unique_names flds) else unique_names flds)"
  by (auto simp: unique_names_def)

lemma in_field_values: "v \<in> field_values h rows n \<longleftrightarrow> (\<exists>a \<in> set rows. h a n = Some v)"
  by (auto simp: field_values_def in_these_eq intro: rev_image_eqI)

lemma field_values_Nil [simp]: "field_values h [] n = {}"
  by (simp add: field_values_def)

lemma field_values_Cons:
  "field_values h (a # rows) n = (case h a n of None \<Rightarrow> {} | Some v \<Rightarrow> {v}) \<union> field_values h rows n"
  by (auto simp: in_field_values split: option.splits)

lemma field_values_append:
  "field_values h (xs @ ys) n = field_values h xs n \<union> field_values h ys n"
  by (auto simp: in_field_values)

lemma apply_unique_result:
  assumes "\<forall>n \<in> unique_names flds. idx n \<noteq> None"
  shows "apply_unique r flds idx =
           Inr (\<lambda>n. if n \<in> unique_names flds then map_option (insert (row_get r n)) (idx n) else idx n)"
  using assms
proof (induction flds arbitrary: idx)
  case Nil
  then show ?case by simp
next
  case (Cons f flds)
  show ?case
  proof (cases "Unique f")
    case False
    with Cons show ?thesis by simp
  next
    case True
    with Cons.prems obtain s where s: "idx (Name f) = Some s" by auto
    let ?idx1 = "idx(Name f \<mapsto> insert (row_get r (Name f)) s)"
    from Cons.prems True have "\<forall>n \<in> unique_names flds. ?idx1 n \<noteq> None" by auto
    from Cons.IH [OF this]
    have "apply_unique r flds ?idx1 =
            Inr (\<lambda>n. if n \<in> unique_names flds
                     then map_option (insert (row_get r n)) (?idx1 n) else ?idx1 n)" .
    moreover from s have
      "(\<lambda>n. if n \<in> unique_names flds
            then map_option (insert (row_get r n)) (?idx1 n) else ?idx1 n) =
       (\<lambda>n. if n \<in> unique_names (f # flds)
            then map_option (insert (row_get r n)) (idx n) else idx n)"
      using True by (auto simp: fun_eq_iff)
    ultimately show ?thesis using True s by simp
  qed
qed

lemma check_constraints_None:
  "check_constraints r idx flds = None \<Longrightarrow> \<forall>f \<in> set flds. r (Name f) \<noteq> None"
  by (induction flds) (auto split: option.splits if_splits)

lemma validate_fields_None:
  "validate_fields h idx prev i r flds = None \<Longrightarrow> \<forall>f \<in> set flds. r (Name f) \<noteq> None"
  by (induction flds) (auto split: option.splits if_splits)

lemma validate_records_None:
  "validate_records h idx flds prev records = None \<Longrightarrow>
     \<forall>r \<in> set records. \<forall>f \<in> set flds. h r (Name f) \<noteq> None"
proof (induction records arbitrary: prev)
  case Nil
  then show ?case by simp
next
  case (Cons r records)
  from Cons.prems have a: "validate_fields h idx prev (length prev) (h r) flds = None"
    and b: "validate_records h idx flds (prev @ [r]) records = None"
    by (auto split: option.splits)
  from validate_fields_None [OF a] Cons.IH [OF b] show ?case by simp
qed

lemma all_rows_append_row [simp]:
  "all_rows (append_row table a) = all_rows table @ [a]"
  by (simp add: all_rows_def append_row_def)

lemma all_rows_seal [simp]: "all_rows (seal table now) = all_rows table"
  by (simp add: all_rows_def seal_def seal_clump_def clump_rows_def NewHotHeap_def)

lemma index_exact_seal [simp]: "index_exact h (seal table now) = index_exact h table"
  by (simp add: index_exact_def) (simp add: seal_def)

lemma append_indexed:
  assumes ex: "index_exact h table"
    and has: "\<forall>f \<in> set (Fields (TblSchema table)). h a (Name f) \<noteq> None"
  shows "\<exists>idx. apply_unique (h a) (Fields (TblSchema table)) (UniqueIndices table) = Inr idx
           \<and> index_exact h (append_row (table\<lparr>UniqueIndices := idx\<rparr>) a)"
proof -
  let ?flds = "Fields (TblSchema table)"
  let ?idx = "\<lambda>n. if n \<in> unique_names ?flds
                  then map_option (insert (row_get (h a) n)) (UniqueIndices table n)
                  else UniqueIndices table n"
  from ex have "\<forall>n \<in> unique_names ?flds. UniqueIndices table n \<noteq> None"
    by (auto simp: index_exact_def unique_names_def)
  from apply_unique_result [OF this]
  have r: "apply_unique (h a) ?flds (UniqueIndices table) = Inr ?idx" .
  have "index_exact h (append_row (table\<lparr>UniqueIndices := ?idx\<rparr>) a)"
    unfolding index_exact_def
  proof (intro ballI impI)
    fix f
    assume f: "f \<in> set (Fields (TblSchema (append_row (table\<lparr>UniqueIndices := ?idx\<rparr>) a)))"
      and u: "Unique f"
    then have f': "f \<in> set ?flds" by (simp add: append_row_def)
    with u have n: "Name f \<in> unique_names ?flds" by (auto simp: unique_names_def)
    from has f' obtain v where v: "h a (Name f) = Some v" by auto
    from ex f' u have
      i: "UniqueIndices table (Name f) = Some (field_values h (all_rows table) (Name f))"
      by (simp add: index_exact_def)
    have "all_rows (append_row (table\<lparr>UniqueIndices := ?idx\<rparr>) a) = all_rows table @ [a]"
      by (simp add: all_rows_def append_row_def)
    with n v i show "UniqueIndices (append_row (table\<lparr>UniqueIndices := ?idx\<rparr>) a) (Name f) =
            Some (field_values h (all_rows (append_row (table\<lparr>UniqueIndices := ?idx\<rparr>) a)) (Name f))"
      by (auto simp: append_row_def field_values_append field_values_Cons row_get_def)
  qed
  with r show ?thesis by blast
qed

lemma db_index_exact_put_table:
  assumes "db_index_exact db" and "index_exact (Heap db) table"
  shows "db_index_exact (put_table db tableName table)"
  using assms by (simp add: db_index_exact_def put_table_def)

lemma db_index_exact_PersistClump [simp]:
  "db_index_exact (PersistClump db tableName clump) = db_index_exact db"
  by (simp add: db_index_exact_def PersistClump_def)

lemma db_index_exact_seal_if_full:
  assumes "db_index_exact db" and "index_exact (Heap db) table"
  shows "db_index_exact (seal_if_full db tableName table now)"
  using assms by (simp add: seal_if_full_def db_index_exact_put_table)

lemma Insert_keeps_index_exact:
  assumes inv: "db_index_exact db"
  shows "db_index_exact (snd (Insert db tableName r now))"
proof (cases "Tables db tableName")
  case None
  with inv show ?thesis by (simp add: Insert_def)
next
  case (Some table)
  with inv have ex: "index_exact (Heap db) table" by (simp add: db_index_exact_def)
  show ?thesis
  proof (cases "check_constraints (Heap db r) (UniqueIndices table) (Fields (TblSchema table))")
    case (Some e)
    with \<open>Tables db tableName = Some table\<close> inv show ?thesis by (simp add: Insert_def)
  next
    case None
    from append_indexed [OF ex check_constraints_None [OF None]] obtain idx where
      "apply_unique (Heap db r) (Fields (TblSchema table)) (UniqueIndices table) = Inr idx"
      "index_exact (Heap db) (append_row (table\<lparr>UniqueIndices := idx\<rparr>) r)"
      by blast
    with None \<open>Tables db tableName = Some table\<close> inv show ?thesis
      by (simp add: Insert_def db_index_exact_seal_if_full)
  qed
qed

lemma bulk_apply_keeps_index_exact:
  assumes "index_exact h table"
    and "\<forall>r \<in> set records. \<forall>f \<in> set (Fields (TblSchema table)). h r (Name f) \<noteq> None"
  shows "\<exists>table1. bulk_apply h records table = Inr table1 \<and> index_exact h table1"
  using assms
proof (induction records arbitrary: table)
  case Nil
  then show ?case by simp
next
  case (Cons r records)
  from Cons.prems have "\<forall>f \<in> set (Fields (TblSchema table)). h r (Name f) \<noteq> None" by simp
  from append_indexed [OF Cons.prems(1) this] obtain idx where
    a: "apply_unique (h r) (Fields (TblSchema table)) (UniqueIndices table) = Inr idx"
    and e: "index_exact h (append_row (table\<lparr>UniqueIndices := idx\<rparr>) r)"
    by blast
  have "Fields (TblSchema (append_row (table\<lparr>UniqueIndices := idx\<rparr>) r)) = Fields (TblSchema table)"
    by (simp add: append_row_def)
  with Cons.prems(2) have
    "\<forall>x \<in> set records. \<forall>f \<in> set (Fields (TblSchema (append_row (table\<lparr>UniqueIndices := idx\<rparr>) r))).
       h x (Name f) \<noteq> None"
    by simp
  from Cons.IH [OF e this] a show ?case by simp
qed

lemma BulkInsert_keeps_index_exact:
  assumes inv: "db_index_exact db"
  shows "db_index_exact (snd (BulkInsert db tableName records now))"
proof (cases "Tables db tableName")
  case None
  with inv show ?thesis by (simp add: BulkInsert_def)
next
  case (Some table)
  with inv have ex: "index_exact (Heap db) table" by (simp add: db_index_exact_def)
  show ?thesis
  proof (cases "validate_records (Heap db) (UniqueIndices table) (Fields (TblSchema table)) [] records")
    case (Some e)
    with \<open>Tables db tableName = Some table\<close> inv show ?thesis by (simp add: BulkInsert_def)
  next
    case None
    from bulk_apply_keeps_index_exact [OF ex validate_records_None [OF None]] obtain table1 where
      "bulk_apply (Heap db) records table = Inr table1" "index_exact (Heap db) table1"
      by blast
    with None \<open>Tables db tableName = Some table\<close> inv show ?thesis
      by (simp add: BulkInsert_def db_index_exact_seal_if_full)
  qed
qed

lemma fresh_indices_lookup:
  "fresh_indices flds m n = (if n \<in> unique_names flds then Some {} else m n)"
  by (induction flds arbitrary: m) auto

lemma index_row_ok_lookup:
  "index_row_ok row flds idx n =
     (if n \<in> unique_names flds
      then map_option (\<lambda>s. s \<union> (case row n of None \<Rightarrow> {} | Some v \<Rightarrow> {v})) (idx n)
      else idx n)"
  by (induction flds arbitrary: idx)
    (auto simp: index_add_def option.map_ident split: option.splits)

lemma index_rows_ok_lookup:
  "index_rows_ok h flds rows idx n =
     (if n \<in> unique_names flds
      then map_option (\<lambda>s. s \<union> field_values h rows n) (idx n)
      else idx n)"
proof (induction rows arbitrary: idx)
  case Nil
  then show ?case by (cases "idx n") auto
next
  case (Cons a rows)
  show ?case
    by (cases "idx n")
      (auto simp: Cons.IH index_row_ok_lookup field_values_Cons split: option.splits)
qed

lemma SyncSchema_keeps_index_exact:
  assumes inv: "db_index_exact db"
  shows "db_index_exact (snd (SyncSchema db tableName newFields))"
proof (cases "Compatiable (DiffSchema db tableName newFields)")
  case False
  with inv show ?thesis by (simp add: SyncSchema_def Let_def)
next
  case True
  show ?thesis
  proof (cases "Tables db tableName")
    case None
    with True inv show ?thesis
      by (simp add: SyncSchema_def Let_def SaveSchemas_def db_index_exact_def)
  next
    case (Some table)
    let ?idx = "index_rows_ok (Heap db) newFields (Rows (TblHotHeap table))
                  (index_rows_ok (Heap db) newFields (clump_rows (SealedClumps table))
                     (fresh_indices newFields Map.empty))"
    let ?table1 = "table\<lparr>TblSchema := \<lparr>Version = 1, Fields = newFields\<rparr>, UniqueIndices := ?idx\<rparr>"
    have "index_exact (Heap db) ?table1"
      by (auto simp: index_exact_def index_rows_ok_lookup fresh_indices_lookup all_rows_def
          field_values_append unique_names_def)
    with inv have "db_index_exact (put_table db tableName ?table1)"
      by (rule db_index_exact_put_table)
    with True Some show ?thesis
      by (simp add: SyncSchema_def Let_def SaveSchemas_def db_index_exact_def put_table_def)
  qed
qed

lemma DefineSchema_new_keeps_index_exact:
  assumes inv: "db_index_exact db"
    and new: "Tables db tableName = None" "Orphans db tableName = None"
  shows "db_index_exact (snd (DefineSchema db tableName flds now))"
proof -
  let ?table = "\<lparr>TblName = tableName, TblSchema = \<lparr>Version = 1, Fields = flds\<rparr>,
                 TblHotHeap = NewHotHeap 1000 now, SealedClumps = [],
                 UniqueIndices = fresh_indices flds Map.empty\<rparr>"
  have "index_exact (Heap db) ?table"
    by (auto simp: index_exact_def fresh_indices_lookup all_rows_def clump_rows_def
        NewHotHeap_def unique_names_def)
  with inv have "db_index_exact (put_table db tableName ?table)"
    by (rule db_index_exact_put_table)
  with new show ?thesis
    by (simp add: DefineSchema_def Let_def SaveSchemas_def db_index_exact_def put_table_def)
qed

lemma perform_keeps_index_exact:
  assumes "db_index_exact db" and "defines_new db x"
  shows "db_index_exact (perform db x)"
  using assms
  by (cases x)
    (simp_all add: Insert_keeps_index_exact BulkInsert_keeps_index_exact
      SyncSchema_keeps_index_exact DefineSchema_new_keeps_index_exact)

text \<open>
  C2, as amended: for every table and every unique field F, after any sequence of
  Insert, BulkInsert and SyncSchema calls, and of DefineSchema calls that each make
  a table new to the database, started where the indices are exact (a database just
  opened on new files, say), the unique index for F is exactly the set of the
  F-values present across all of the table's rows, sealed clumps and live HotHeap.
\<close>

theorem unique_indices_exact_after_inserts_and_syncs:
  assumes "db_index_exact db" and "perform_all db ops = Some db1"
  shows "db_index_exact db1"
  using assms
proof (induction ops arbitrary: db)
  case Nil
  then show ?case by simp
next
  case (Cons x ops)
  from Cons.prems(2) have d: "defines_new db x" and r: "perform_all (perform db x) ops = Some db1"
    by (auto split: if_splits)
  from Cons.IH [OF perform_keeps_index_exact [OF Cons.prems(1) d] r] show ?case .
qed

lemma demo_rows_exact: "db_index_exact demo_rows"
  by (simp add: db_index_exact_def demo_rows_def demo_new_def NewRow_def)

lemma demo_ops_performed: "perform_all demo_rows demo_ops = Some demo_performed"
  by (simp add: demo_ops_def demo_performed_def)
    (simp add: demo_rows_def demo_new_def NewRow_def)

lemma demo_performed_index:
  "index_of demo_performed ''products'' ''id'' = Some {VInt 1, VInt 2}
   \<and> values_of demo_performed ''products'' ''id'' = {VInt 1, VInt 2}"
  by (simp add: index_of_def values_of_def field_values_def demo_performed_def demo_rows_def
      demo_unfold fresh_indices_lookup validate_records.simps index_add_def insert_commute)

theorem unique_indices_exact_after_inserts_and_syncs_witness:
  "db_index_exact demo_rows \<and> perform_all demo_rows demo_ops = Some demo_performed
   \<and> db_index_exact demo_performed
   \<and> index_of demo_performed ''products'' ''id'' = Some {VInt 1, VInt 2}
   \<and> values_of demo_performed ''products'' ''id'' = {VInt 1, VInt 2}"
  using unique_indices_exact_after_inserts_and_syncs [OF demo_rows_exact demo_ops_performed]
    demo_rows_exact demo_ops_performed demo_performed_index
  by simp

text \<open>
  The specification's own wording lets Delete be one of the operations. After the
  insert the index of \<open>id\<close> and the values of \<open>id\<close> in the table are both \<open>{1}\<close>;
  Delete removes the row and leaves the index as it is.
\<close>

theorem unique_index_after_Delete_counterexample:
  "index_of demo_inserted ''products'' ''id'' = Some {VInt 1}
   \<and> values_of demo_inserted ''products'' ''id'' = {VInt 1}
   \<and> fst (Delete demo_inserted ''products'' (id_is 1) 7000000000) = None
   \<and> index_of demo_deleted ''products'' ''id'' = Some {VInt 1}
   \<and> values_of demo_deleted ''products'' ''id'' = {}
   \<and> \<not> db_index_exact demo_deleted"
proof -
  have a: "index_of demo_inserted ''products'' ''id'' = Some {VInt 1}"
    "values_of demo_inserted ''products'' ''id'' = {VInt 1}"
    "fst (Delete demo_inserted ''products'' (id_is 1) 7000000000) = None"
    by (simp_all add: index_of_def values_of_def field_values_def demo_unfold)
  have b: "index_of demo_deleted ''products'' ''id'' = Some {VInt 1}"
    "values_of demo_deleted ''products'' ''id'' = {}"
    by (simp_all add: index_of_def values_of_def field_values_def demo_unfold)
  obtain table where t: "Tables demo_deleted ''products'' = Some table"
    and f: "Fields (TblSchema table) = products_fields"
    by (simp add: demo_unfold)
  have "\<not> index_exact (Heap demo_deleted) table"
  proof
    assume "index_exact (Heap demo_deleted) table"
    with f have "UniqueIndices table ''id'' =
                   Some (field_values (Heap demo_deleted) (all_rows table) ''id'')"
      by (simp add: index_exact_def products_fields_def)
    with b t show False by (simp add: index_of_def values_of_def)
  qed
  with t have "\<not> db_index_exact demo_deleted" by (auto simp: db_index_exact_def)
  with a b show ?thesis by simp
qed

text \<open>
  Update, Restore and a DefineSchema over an existing table do not maintain the
  indices either.
\<close>

lemma unique_index_not_kept_by_others:
  "index_of demo_redefined ''products'' ''id'' = Some {}
   \<and> values_of demo_redefined ''products'' ''id'' = {VInt 1}
   \<and> index_of demo_id_updated ''products'' ''id'' = Some {VInt 1}
   \<and> values_of demo_id_updated ''products'' ''id'' = {VInt 5}
   \<and> index_of demo_resynced_restored ''products'' ''id'' = Some {}
   \<and> values_of demo_resynced_restored ''products'' ''id'' = {VInt 1}"
  by (simp add: index_of_def values_of_def field_values_def demo_redefined_def
      demo_id_updated_def demo_resynced_restored_def demo_unfold fresh_indices_lookup
      index_add_def)

section \<open>Codec round trip\<close>

lemma lookup_symbol_nth:
  "distinct tbl \<Longrightarrow> i < length tbl \<Longrightarrow> lookup_symbol tbl (tbl ! i) = Some i"
proof (induction tbl arbitrary: i)
  case Nil
  then show ?case by simp
next
  case (Cons t tbl)
  show ?case
  proof (cases i)
    case 0
    then show ?thesis by simp
  next
    case (Suc j)
    with Cons.prems have "tbl ! j \<in> set tbl" "t \<notin> set tbl" by auto
    then have "t \<noteq> tbl ! j" by auto
    with Suc Cons show ?thesis by simp
  qed
qed

lemma lookup_symbol_None: "s \<notin> set tbl \<Longrightarrow> lookup_symbol tbl s = None"
  by (induction tbl) auto

lemma unat_byte_less: "unat (b :: byte) < 256"
  using unsigned_less [of b] by simp

lemma DecodeOne_symbol:
  assumes "valid_table tbl"
  shows "DecodeOne tbl (tbl ! unat (b :: byte) # rest) = Inr (b, rest)"
  using assms lookup_symbol_nth [of tbl "unat b"] unat_byte_less [of b]
  by (simp add: DecodeOne_def valid_table_def)

lemma decode_encode:
  assumes "valid_table tbl"
  shows "decode tbl (EncodeToEmojis tbl bs) = Inr bs"
proof (induction bs)
  case Nil
  then show ?case by (simp add: EncodeToEmojis_def)
next
  case (Cons b bs)
  have "EncodeToEmojis tbl (b # bs) = tbl ! unat b # EncodeToEmojis tbl bs"
    by (simp add: EncodeToEmojis_def)
  with Cons DecodeOne_symbol [OF assms, of b "EncodeToEmojis tbl bs"] show ?case
    by (simp del: decode.simps add: decode.simps [of tbl "tbl ! unat b # EncodeToEmojis tbl bs"])
qed

lemma symbol_bijection:
  assumes "valid_table tbl"
  shows "bij_betw (\<lambda>b :: byte. tbl ! unat b) UNIV (set tbl)"
proof (rule bij_betwI')
  fix x y :: byte
  from assms unat_byte_less [of x] unat_byte_less [of y]
  show "(tbl ! unat x = tbl ! unat y) = (x = y)"
    by (auto simp: valid_table_def nth_eq_iff_index_eq word_unat_eq_iff)
next
  fix x :: byte
  from assms unat_byte_less [of x] show "tbl ! unat x \<in> set tbl"
    by (simp add: valid_table_def)
next
  fix s
  assume "s \<in> set tbl"
  then obtain i where i: "i < length tbl" "tbl ! i = s" by (auto simp: in_set_conv_nth)
  with assms have "i < 256" by (simp add: valid_table_def)
  then have "unat (word_of_nat i :: byte) = i" by (simp add: unat_of_nat)
  with i show "\<exists>x\<in>UNIV. s = tbl ! unat (x :: byte)" by (intro bexI [of _ "word_of_nat i"]) auto
qed

text \<open>
  C8: over a table of 256 distinct symbols the codec is a bijection between the 256
  byte values and the symbols of the table; decoding the encoding of any byte
  sequence gives the sequence back, and so for each single byte value; and
  \<open>DecodeOne\<close> fails with \<open>UnknownSymbol\<close> on a symbol that is not in the table.
\<close>

theorem codec_roundtrip:
  assumes "valid_table tbl"
  shows "bij_betw (\<lambda>b :: byte. tbl ! unat b) UNIV (set tbl)
       \<and> card (set tbl) = 256
       \<and> decode tbl (EncodeToEmojis tbl bs) = Inr bs
       \<and> (\<forall>b rest. DecodeOne tbl (EncodeToEmojis tbl [b] @ rest) = Inr (b, rest))
       \<and> (\<forall>s rest. s \<notin> set tbl \<longrightarrow> DecodeOne tbl (s # rest) = Inl UnknownSymbol)"
proof -
  from assms have c: "card (set tbl) = 256"
    by (simp add: valid_table_def distinct_card)
  have o: "DecodeOne tbl (EncodeToEmojis tbl [b] @ rest) = Inr (b, rest)" for b rest
    using DecodeOne_symbol [OF assms, of b rest] by (simp add: EncodeToEmojis_def)
  have u: "DecodeOne tbl (s # rest) = Inl UnknownSymbol" if "s \<notin> set tbl" for s rest
    using lookup_symbol_None [OF that] by (simp add: DecodeOne_def)
  from symbol_bijection [OF assms] c decode_encode [OF assms] o u show ?thesis by blast
qed

lemma demo_table_valid: "valid_table demo_table"
  by (simp add: valid_table_def demo_table_def distinct_map inj_on_def)

theorem codec_roundtrip_witness:
  "valid_table demo_table
   \<and> decode demo_table (EncodeToEmojis demo_table [0, 255, 7]) = Inr [0, 255, 7]
   \<and> DecodeOne demo_table (EncodeToEmojis demo_table [200] @ [5]) = Inr (200, [5])
   \<and> 5 \<notin> set demo_table
   \<and> DecodeOne demo_table [5] = Inl UnknownSymbol"
proof -
  have n: "5 \<notin> set demo_table" by (auto simp: demo_table_def)
  from codec_roundtrip [OF demo_table_valid, of "[0, 255, 7]"] n demo_table_valid
  show ?thesis by simp
qed

section \<open>Schema diff\<close>

lemma find_app:
  "find P (xs @ ys) = (case find P xs of None \<Rightarrow> find P ys | Some x \<Rightarrow> Some x)"
  by (induction xs) auto

lemma field_map_find:
  "field_map flds m n =
     (case find (\<lambda>g. Name g = n) (rev flds) of None \<Rightarrow> m n | Some g \<Rightarrow> Some g)"
  by (induction flds arbitrary: m) (auto simp: find_app split: option.splits)

lemma field_map_last_declared: "field_map flds Map.empty n = last_declared flds n"
  by (simp add: field_map_find last_declared_def split: option.splits)

lemma last_declared_None: "last_declared flds n = None \<longleftrightarrow> \<not> declares flds n"
  by (auto simp: last_declared_def declares_def find_None_iff list_ex_iff)

lemma diff_new_Compatiable:
  "Compatiable (diff_new cur flds report) \<longleftrightarrow>
     Compatiable report \<and>
     \<not> list_ex (\<lambda>f. case cur (Name f) of None \<Rightarrow> False | Some g \<Rightarrow> Type g \<noteq> Type f) flds"
  by (induction flds arbitrary: report) (auto split: option.splits)

lemma diff_new_Destructive: "Destructive (diff_new cur flds report) = Destructive report"
  by (induction flds arbitrary: report) (auto split: option.splits)

lemma diff_new_Conflicts:
  "set (Conflicts (diff_new cur flds report)) =
     set (Conflicts report)
     \<union> {type_mismatch_msg g f | f g. f \<in> set flds \<and> cur (Name f) = Some g \<and> Type g \<noteq> Type f}
     \<union> {field_add_msg (Name f) | f. f \<in> set flds \<and> cur (Name f) = None}"
proof (induction flds arbitrary: report)
  case Nil
  then show ?case by simp
next
  case (Cons x flds)
  show ?case
  proof (cases "cur (Name x)")
    case None
    then show ?thesis by (auto simp: Cons.IH)
  next
    case (Some oldF)
    then show ?thesis by (cases "Type oldF = Type x") (auto simp: Cons.IH)
  qed
qed

lemma diff_old_Compatiable: "Compatiable (diff_old new names report) = Compatiable report"
  by (induction names arbitrary: report) (auto split: option.splits)

lemma diff_old_Destructive:
  "Destructive (diff_old new names report) \<longleftrightarrow>
     Destructive report \<or> list_ex (\<lambda>n. new n = None) names"
  by (induction names arbitrary: report) (auto split: option.splits)

lemma diff_old_Conflicts:
  "set (Conflicts (diff_old new names report)) =
     set (Conflicts report) \<union> {field_remove_msg n | n. n \<in> set names \<and> new n = None}"
proof (induction names arbitrary: report)
  case Nil
  then show ?case by simp
next
  case (Cons x names)
  show ?case by (cases "new x") (auto simp: Cons.IH)
qed

text \<open>
  C6: for every current schema and proposed field list, DiffSchema reports
  Compatible = false exactly when some proposed field changed the type of a field the
  current schema declares, and Destructive = true exactly when some field of the
  current schema is absent from the proposal. Its entries are exactly these: a
  TYPE_MISMATCH entry naming each proposed field that changed type, with the old and
  the new type; a FIELD_ADD entry naming each proposed field the current schema does
  not declare; a FIELD_REMOVE entry naming each field of the current schema absent
  from the proposal. A purely additive field is no type change, so it does not
  affect compatibility.
\<close>

theorem DiffSchema_report:
  assumes cur: "Schemas db tableName = Some currentSchema"
  shows "(Compatiable (DiffSchema db tableName newFields) \<longleftrightarrow>
            \<not> list_ex (type_changed (Fields currentSchema)) newFields)
       \<and> (Destructive (DiffSchema db tableName newFields) \<longleftrightarrow>
            list_ex (\<lambda>g. \<not> declares newFields (Name g)) (Fields currentSchema))
       \<and> set (Conflicts (DiffSchema db tableName newFields)) =
            {''TYPE_MISMATCH: field '' @ [CHR 0x27] @ Name f @ [CHR 0x27] @ '' change from '' @
               show_nat (FieldType_id (Type g)) @ '' to '' @ show_nat (FieldType_id (Type f))
             | f g. f \<in> set newFields \<and> last_declared (Fields currentSchema) (Name f) = Some g
                    \<and> Type g \<noteq> Type f}
          \<union> {''FIELD_ADD: new field '' @ [CHR 0x27] @ Name f @ [CHR 0x27] @ '' will be added''
             | f. f \<in> set newFields \<and> \<not> declares (Fields currentSchema) (Name f)}
          \<union> {''FIELD_REMOVE: field '' @ [CHR 0x27] @ Name g @ [CHR 0x27] @
               '' and its data will be inaccessible''
             | g. g \<in> set (Fields currentSchema) \<and> \<not> declares newFields (Name g)}
       \<and> (\<forall>f \<in> set newFields. \<not> declares (Fields currentSchema) (Name f) \<longrightarrow>
            \<not> type_changed (Fields currentSchema) f)"
proof -
  let ?old = "Fields currentSchema"
  let ?mid = "diff_new (field_map ?old Map.empty) newFields
                \<lparr>Compatiable = True, Destructive = False, Conflicts = []\<rparr>"
  have d: "DiffSchema db tableName newFields =
             diff_old (field_map newFields Map.empty) (remdups (map Name ?old)) ?mid"
    using cur by (simp add: DiffSchema_def)
  have c: "Compatiable (DiffSchema db tableName newFields) \<longleftrightarrow> \<not> list_ex (type_changed ?old) newFields"
  proof -
    have "type_changed ?old =
            (\<lambda>f. case last_declared ?old (Name f) of None \<Rightarrow> False | Some g \<Rightarrow> Type g \<noteq> Type f)"
      by (rule ext) (simp add: type_changed_def)
    then show ?thesis
      by (simp add: d diff_old_Compatiable diff_new_Compatiable field_map_last_declared)
  qed
  have e: "Destructive (DiffSchema db tableName newFields) \<longleftrightarrow>
            list_ex (\<lambda>g. \<not> declares newFields (Name g)) ?old"
    by (auto simp: d diff_old_Destructive diff_new_Destructive field_map_last_declared
        last_declared_None list_ex_iff)
  have r: "{field_remove_msg n | n. n \<in> set (remdups (map Name ?old))
                                  \<and> field_map newFields Map.empty n = None}
           = {field_remove_msg (Name g) | g. g \<in> set ?old \<and> \<not> declares newFields (Name g)}"
    by (auto simp: field_map_last_declared last_declared_None)
  have s: "set (Conflicts (DiffSchema db tableName newFields)) =
            {type_mismatch_msg g f
             | f g. f \<in> set newFields \<and> last_declared ?old (Name f) = Some g \<and> Type g \<noteq> Type f}
          \<union> {field_add_msg (Name f) | f. f \<in> set newFields \<and> \<not> declares ?old (Name f)}
          \<union> {field_remove_msg (Name g) | g. g \<in> set ?old \<and> \<not> declares newFields (Name g)}"
    unfolding d diff_old_Conflicts diff_new_Conflicts r
    by (simp add: field_map_last_declared last_declared_None)
  have a: "\<not> type_changed ?old f" if "\<not> declares ?old (Name f)" for f
    using that by (simp add: type_changed_def last_declared_None [symmetric])
  from c e a s [unfolded type_mismatch_msg_def field_add_msg_def field_remove_msg_def]
  show ?thesis by blast
qed

theorem DiffSchema_report_witness:
  "Schemas demo_users ''users'' = Some \<lparr>Version = 1, Fields = id_name_fields\<rparr>
   \<and> \<not> Compatiable (DiffSchema demo_users ''users'' id_name_int)
   \<and> \<not> Destructive (DiffSchema demo_users ''users'' id_name_int)
   \<and> Conflicts (DiffSchema demo_users ''users'' id_name_int)
       = [''TYPE_MISMATCH: field 'name' change from 1 to 0'']
   \<and> Destructive (DiffSchema demo_users ''users'' id_only)
   \<and> Compatiable (DiffSchema demo_users ''users'' id_only)
   \<and> Conflicts (DiffSchema demo_users ''users'' id_only)
       = [''FIELD_REMOVE: field 'name' and its data will be inaccessible'']"
proof -
  have s: "Schemas demo_users ''users'' = Some \<lparr>Version = 1, Fields = id_name_fields\<rparr>"
    by (simp add: demo_users_def demo_new_def DefineSchema_def Let_def SaveSchemas_def
        put_table_def NewHotHeap_def)
  have c1: "list_ex (type_changed id_name_fields) id_name_int"
    by (simp add: type_changed_def last_declared_def id_name_fields_def id_name_int_def)
  have d1: "\<not> list_ex (\<lambda>g. \<not> declares id_name_int (Name g)) id_name_fields"
    by (simp add: declares_def id_name_fields_def id_name_int_def)
  have c2: "\<not> list_ex (type_changed id_name_fields) id_only"
    by (simp add: type_changed_def last_declared_def id_name_fields_def id_only_def)
  have d2: "list_ex (\<lambda>g. \<not> declares id_only (Name g)) id_name_fields"
    by (simp add: declares_def id_name_fields_def id_only_def)
  from DiffSchema_report [OF s, of id_name_int] c1 d1
  have a: "\<not> Compatiable (DiffSchema demo_users ''users'' id_name_int)"
    "\<not> Destructive (DiffSchema demo_users ''users'' id_name_int)"
    by simp_all
  from DiffSchema_report [OF s, of id_only] c2 d2
  have b: "Destructive (DiffSchema demo_users ''users'' id_only)"
    "Compatiable (DiffSchema demo_users ''users'' id_only)"
    by simp_all
  have l: "Conflicts (DiffSchema demo_users ''users'' id_name_int)
             = [''TYPE_MISMATCH: field 'name' change from 1 to 0'']"
    "Conflicts (DiffSchema demo_users ''users'' id_only)
             = [''FIELD_REMOVE: field 'name' and its data will be inaccessible'']"
    by (simp_all add: DiffSchema_def s id_name_fields_def id_name_int_def id_only_def
        type_mismatch_msg_def field_remove_msg_def digit_def)
  from s a b l show ?thesis by simp
qed

section \<open>Restore\<close>

lemma restore_scan_passed_over:
  assumes "list_all (passed_over db timestamp) pre"
  shows "restore_scan db timestamp (pre @ rest) = restore_scan db timestamp rest"
  using assms
proof (induction pre)
  case Nil
  then show ?case by simp
next
  case (Cons fr pre)
  then have p: "passed_over db timestamp fr" and
    ih: "restore_scan db timestamp (pre @ rest) = restore_scan db timestamp rest"
    by simp_all
  show ?case
  proof (cases fr)
    case (BadSize e)
    with p show ?thesis by (simp add: passed_over_def)
  next
    case (BadSymbol e)
    with p show ?thesis by (simp add: passed_over_def)
  next
    case (Ciphertext k pl)
    with p ih show ?thesis
      by (cases pl) (auto simp: passed_over_def restorable_def matches_def split: option.splits)
  qed
qed

lemma restore_scan_restorable:
  assumes "matches timestamp b" and "Tables db (TableName b) = Some table"
  shows "restore_scan db timestamp (Ciphertext (Key db) (BackupJSON b) # post) =
           (None, reinstate db b table)"
  using assms
  by (simp add: matches_def reinstate_def NewRow_def put_table_def append_row_def)

lemma restore_scan_frame_error:
  assumes "frame_error fr = Some e"
  shows "restore_scan db timestamp (fr # post) = (Some e, db)"
  using assms by (cases fr) simp_all

text \<open>
  C5, as amended: Restore with accepted = false fails at once and changes nothing.
  With accepted = true it scans the safety log from the start, passing over every
  readable frame that is not restorable (it does not open under the key, does not
  parse, is for another second, or names a table the database does not define), and
  reinstates the first restorable record: its row is appended to the HotHeap of its
  table, the unique indices untouched, and the scan stops. When every frame of the
  log is passed over, it fails with the recovery-point-not-found error and changes
  nothing. When the scan comes to a frame whose size field or symbols cannot be
  decoded, it ends with that decoding error and changes nothing.
\<close>

theorem Restore_first_restorable:
  "Restore db timestamp False = (Some ''recovery aborted'', db)
   \<and> (\<forall>pre b post table.
         SafetyFile db = pre @ Ciphertext (Key db) (BackupJSON b) # post
         \<and> list_all (passed_over db timestamp) pre
         \<and> matches timestamp b \<and> Tables db (TableName b) = Some table
       \<longrightarrow> Restore db timestamp True = (None, reinstate db b table))
   \<and> (list_all (passed_over db timestamp) (SafetyFile db)
       \<longrightarrow> Restore db timestamp True = (Some ''recovery point not found'', db))
   \<and> (\<forall>pre fr post e.
         SafetyFile db = pre @ fr # post
         \<and> list_all (passed_over db timestamp) pre \<and> frame_error fr = Some e
       \<longrightarrow> Restore db timestamp True = (Some e, db))"
proof -
  have a: "Restore db timestamp False = (Some ''recovery aborted'', db)"
    by (simp add: Restore_def)
  have b: "Restore db timestamp True = (None, reinstate db b table)"
    if "SafetyFile db = pre @ Ciphertext (Key db) (BackupJSON b) # post"
      "list_all (passed_over db timestamp) pre"
      "matches timestamp b" "Tables db (TableName b) = Some table" for pre b post table
    using that restore_scan_passed_over [OF that(2)] restore_scan_restorable [OF that(3,4)]
    by (simp add: Restore_def)
  have c: "Restore db timestamp True = (Some ''recovery point not found'', db)"
    if "list_all (passed_over db timestamp) (SafetyFile db)"
    using restore_scan_passed_over [OF that, of "[]"] by (simp add: Restore_def)
  have d: "Restore db timestamp True = (Some e, db)"
    if "SafetyFile db = pre @ fr # post" "list_all (passed_over db timestamp) pre"
      "frame_error fr = Some e" for pre fr post e
    using that restore_scan_passed_over [OF that(2)] restore_scan_frame_error [OF that(3)]
    by (simp add: Restore_def)
  from a b c d show ?thesis by blast
qed

lemma demo_log_facts:
  "Key demo_long_log = ''k''" "Tables demo_long_log ''ghost'' = None"
  "\<exists>table. Tables demo_long_log ''products'' = Some table"
  "Key demo_ghost = ''k''" "Tables demo_ghost ''ghost'' = None"
  "\<exists>table. Tables demo_ghost ''products'' = Some table"
  "Key demo_cut_log = ''k''" "Tables demo_cut_log ''ghost'' = None"
  by (simp_all add: demo_long_log_def demo_ghost_def demo_cut_log_def
      demo_inserted_def demo_row_def demo_defined_def demo_new_def
      DefineSchema_def Insert_def NewRow_def Let_def SaveSchemas_def put_table_def
      NewHotHeap_def products_fields_def index_has_def row_get_def seal_if_full_def
      at_capacity_def append_row_def)

lemma demo_backup_facts:
  "TableName ghost_backup = ''ghost''" "TableName products_backup = ''products''"
  "TableName earlier_backup = ''products''"
  "matches 7000000000 ghost_backup" "matches 7000000000 products_backup"
  "\<not> matches 7000000000 earlier_backup"
  "\<not> matches 9000000000 ghost_backup" "\<not> matches 9000000000 products_backup"
  "\<not> matches 9000000000 earlier_backup"
  by (simp_all add: matches_def truncate_second_def ghost_backup_def products_backup_def
      earlier_backup_def)

theorem Restore_first_restorable_witness:
  "SafetyFile demo_long_log =
     [Ciphertext ''other'' (BackupJSON products_backup), Ciphertext ''k'' Malformed,
      Ciphertext ''k'' (BackupJSON earlier_backup), Ciphertext ''k'' (BackupJSON ghost_backup)]
     @ Ciphertext (Key demo_long_log) (BackupJSON products_backup) # [BadSymbol ''unexpected EOF'']
   \<and> list_all (passed_over demo_long_log 7000000000)
        [Ciphertext ''other'' (BackupJSON products_backup), Ciphertext ''k'' Malformed,
         Ciphertext ''k'' (BackupJSON earlier_backup), Ciphertext ''k'' (BackupJSON ghost_backup)]
   \<and> matches 7000000000 products_backup
   \<and> (\<exists>table. Tables demo_long_log (TableName products_backup) = Some table
         \<and> Restore demo_long_log 7000000000 True
             = (None, reinstate demo_long_log products_backup table))
   \<and> column demo_long_log ''products'' ''id'' = Some [VInt 1]
   \<and> column (snd (Restore demo_long_log 7000000000 True)) ''products'' ''id''
       = Some [VInt 1, VInt 8]
   \<and> list_all (passed_over demo_long_log 9000000000)
        [Ciphertext ''other'' (BackupJSON products_backup), Ciphertext ''k'' Malformed,
         Ciphertext ''k'' (BackupJSON earlier_backup), Ciphertext ''k'' (BackupJSON ghost_backup),
         Ciphertext ''k'' (BackupJSON products_backup)]
   \<and> frame_error (BadSymbol ''unexpected EOF'') = Some ''unexpected EOF''
   \<and> Restore demo_long_log 9000000000 True = (Some ''unexpected EOF'', demo_long_log)
   \<and> list_all (passed_over demo_ghost 9000000000) (SafetyFile demo_ghost)
   \<and> Restore demo_ghost 9000000000 True = (Some ''recovery point not found'', demo_ghost)
   \<and> Restore demo_long_log 7000000000 False = (Some ''recovery aborted'', demo_long_log)"
proof -
  let ?pre = "[Ciphertext ''other'' (BackupJSON products_backup), Ciphertext ''k'' Malformed,
      Ciphertext ''k'' (BackupJSON earlier_backup), Ciphertext ''k'' (BackupJSON ghost_backup)]"
  have l: "SafetyFile demo_long_log =
     ?pre @ Ciphertext (Key demo_long_log) (BackupJSON products_backup) # [BadSymbol ''unexpected EOF'']"
    by (simp add: demo_log_facts) (simp add: demo_long_log_def)
  let ?pre9 = "[Ciphertext ''other'' (BackupJSON products_backup), Ciphertext ''k'' Malformed,
         Ciphertext ''k'' (BackupJSON earlier_backup), Ciphertext ''k'' (BackupJSON ghost_backup),
         Ciphertext ''k'' (BackupJSON products_backup)]"
  have l9: "SafetyFile demo_long_log = ?pre9 @ BadSymbol ''unexpected EOF'' # []"
    by (simp add: demo_long_log_def)
  have p7: "list_all (passed_over demo_long_log 7000000000) ?pre"
    by (simp add: passed_over_def restorable_def demo_log_facts demo_backup_facts)
  have p9: "list_all (passed_over demo_long_log 9000000000) ?pre9"
    by (simp add: passed_over_def restorable_def demo_log_facts demo_backup_facts)
  have sg: "SafetyFile demo_ghost =
              [Ciphertext ''k'' (BackupJSON ghost_backup), Ciphertext ''k'' (BackupJSON products_backup)]"
    by (simp add: demo_ghost_def)
  have pg: "list_all (passed_over demo_ghost 9000000000) (SafetyFile demo_ghost)"
    by (simp add: sg passed_over_def restorable_def demo_log_facts demo_backup_facts)
  have m: "matches 7000000000 products_backup" by (simp add: demo_backup_facts)
  have fe: "frame_error (BadSymbol ''unexpected EOF'') = Some ''unexpected EOF''" by simp
  from demo_log_facts obtain table where
    t: "Tables demo_long_log (TableName products_backup) = Some table"
    by (auto simp: demo_backup_facts)
  from Restore_first_restorable [of demo_long_log 7000000000] l p7 m t
  have r: "Restore demo_long_log 7000000000 True
             = (None, reinstate demo_long_log products_backup table)"
    and f: "Restore demo_long_log 7000000000 False = (Some ''recovery aborted'', demo_long_log)"
    by blast+
  from Restore_first_restorable [of demo_long_log 9000000000] l9 p9 fe
  have e: "Restore demo_long_log 9000000000 True = (Some ''unexpected EOF'', demo_long_log)"
    by blast
  from Restore_first_restorable [of demo_ghost 9000000000] pg
  have n: "Restore demo_ghost 9000000000 True = (Some ''recovery point not found'', demo_ghost)"
    by blast
  have c0: "column demo_long_log ''products'' ''id'' = Some [VInt 1]"
    by (simp add: column_def all_rows_def clump_rows_def demo_long_log_def
      demo_inserted_def demo_row_def demo_defined_def demo_new_def
      DefineSchema_def Insert_def NewRow_def Let_def SaveSchemas_def put_table_def
      NewHotHeap_def products_fields_def index_has_def row_get_def seal_if_full_def
      at_capacity_def append_row_def)
  have c1: "column (snd (Restore demo_long_log 7000000000 True)) ''products'' ''id''
       = Some [VInt 1, VInt 8]"
    unfolding r
    using t c0
    by (auto simp: column_def all_rows_def reinstate_def demo_backup_facts row_get_def
        products_backup_def demo_long_log_def
      demo_inserted_def demo_row_def demo_defined_def demo_new_def
      DefineSchema_def Insert_def NewRow_def Let_def SaveSchemas_def put_table_def
      NewHotHeap_def products_fields_def index_has_def seal_if_full_def
      at_capacity_def append_row_def clump_rows_def split: option.splits)
  from l p7 m t r c0 c1 p9 fe e pg n f show ?thesis
    by blast
qed

text \<open>
  The specification's own wording has Restore select the first record of the log
  with the requested second. On the log of \<open>demo_ghost\<close> that record is the one of
  table \<open>ghost\<close>; Restore succeeds, but what it appends is the row of the second
  record, to \<open>products\<close>, and there is no table \<open>ghost\<close> afterwards.
\<close>

theorem Restore_first_match_counterexample:
  "first_match demo_ghost 7000000000 = Some ghost_backup
   \<and> fst (Restore demo_ghost 7000000000 True) = None
   \<and> Tables (snd (Restore demo_ghost 7000000000 True)) ''ghost'' = None
   \<and> column demo_ghost ''products'' ''id'' = Some [VInt 1]
   \<and> column (snd (Restore demo_ghost 7000000000 True)) ''products'' ''id'' = Some [VInt 1, VInt 8]"
  by (simp add: first_match_def matches_def truncate_second_def Restore_def column_def
      all_rows_def clump_rows_def
      demo_ghost_def ghost_backup_def products_backup_def
      demo_inserted_def demo_row_def demo_defined_def demo_new_def
      DefineSchema_def Insert_def NewRow_def Let_def SaveSchemas_def put_table_def
      NewHotHeap_def products_fields_def index_has_def row_get_def seal_if_full_def
      at_capacity_def append_row_def)

lemma restore_scan_outcome:
  "restore_scan db timestamp frames = (Some ''recovery point not found'', db)
   \<or> (\<exists>fr e. fr \<in> set frames \<and> frame_error fr = Some e
         \<and> restore_scan db timestamp frames = (Some e, db))
   \<or> (\<exists>b table. Ciphertext (Key db) (BackupJSON b) \<in> set frames \<and> matches timestamp b
         \<and> Tables db (TableName b) = Some table
         \<and> restore_scan db timestamp frames = (None, reinstate db b table))"
proof (induction frames)
  case Nil
  then show ?case by simp
next
  case (Cons fr frames)
  show ?case
  proof (cases "passed_over db timestamp fr")
    case True
    then have "restore_scan db timestamp (fr # frames) = restore_scan db timestamp frames"
      using restore_scan_passed_over [of db timestamp "[fr]" frames] by simp
    with Cons show ?thesis by auto
  next
    case False
    show ?thesis
    proof (cases "frame_error fr")
      case (Some e)
      from restore_scan_frame_error [OF this] Some show ?thesis by auto
    next
      case None
      then obtain k pl where c: "fr = Ciphertext k pl" by (cases fr) auto
      with False have "restorable db timestamp (Ciphertext k pl)"
        by (simp add: passed_over_def)
      then obtain b where "pl = BackupJSON b" and k: "k = Key db"
        and m: "matches timestamp b" and t: "Tables db (TableName b) \<noteq> None"
        by (cases pl) (auto simp: restorable_def split: if_splits)
      with c have fr: "fr = Ciphertext k (BackupJSON b)" by simp
      from t obtain table where "Tables db (TableName b) = Some table" by auto
      with restore_scan_restorable [OF m this, of frames] fr k m show ?thesis by auto
    qed
  qed
qed

text \<open>
  C10, as amended: a record of the log that matches the requested second but names
  a table the database does not define is passed over without error. When the scan
  reaches it, Restore goes on with the frames after it, and it never creates the
  missing table. Restore then reinstates a later matching record of a defined
  table, or fails with the recovery-point-not-found error, or fails with the
  decoding error of a later frame whose size field or symbols cannot be decoded; in
  both failures the database is unchanged.
\<close>

theorem Restore_passes_over_unknown_table:
  assumes log: "SafetyFile db = pre @ Ciphertext (Key db) (BackupJSON b) # post"
    and reach: "list_all (passed_over db timestamp) pre"
    and m: "matches timestamp b"
    and unknown: "Tables db (TableName b) = None"
  shows "Restore db timestamp True = restore_scan db timestamp post
       \<and> Tables (snd (Restore db timestamp True)) (TableName b) = None
       \<and> (Restore db timestamp True = (Some ''recovery point not found'', db)
          \<or> (\<exists>b' table. Ciphertext (Key db) (BackupJSON b') \<in> set post
                \<and> matches timestamp b' \<and> Tables db (TableName b') = Some table
                \<and> Restore db timestamp True = (None, reinstate db b' table))
          \<or> (\<exists>fr e. fr \<in> set post \<and> frame_error fr = Some e
                \<and> Restore db timestamp True = (Some e, db)))"
proof -
  have "passed_over db timestamp (Ciphertext (Key db) (BackupJSON b))"
    using unknown by (simp add: passed_over_def restorable_def)
  with reach have "list_all (passed_over db timestamp) (pre @ [Ciphertext (Key db) (BackupJSON b)])"
    by simp
  from restore_scan_passed_over [OF this, of post] log
  have r: "Restore db timestamp True = restore_scan db timestamp post"
    by (simp add: Restore_def)
  have t: "Tables (snd (restore_scan db timestamp post)) (TableName b) = None"
    using restore_scan_outcome [of db timestamp post] unknown
    by (auto simp: reinstate_def)
  from r t restore_scan_outcome [of db timestamp post] show ?thesis by auto
qed

theorem Restore_passes_over_unknown_table_witness:
  "SafetyFile demo_ghost =
     [] @ Ciphertext (Key demo_ghost) (BackupJSON ghost_backup) #
     [Ciphertext ''k'' (BackupJSON products_backup)]
   \<and> list_all (passed_over demo_ghost 7000000000) []
   \<and> matches 7000000000 ghost_backup
   \<and> Tables demo_ghost (TableName ghost_backup) = None
   \<and> Restore demo_ghost 7000000000 True =
       restore_scan demo_ghost 7000000000 [Ciphertext ''k'' (BackupJSON products_backup)]
   \<and> Tables (snd (Restore demo_ghost 7000000000 True)) (TableName ghost_backup) = None
   \<and> (\<exists>table. Tables demo_ghost ''products'' = Some table
         \<and> Restore demo_ghost 7000000000 True = (None, reinstate demo_ghost products_backup table))
   \<and> SafetyFile demo_cut_log =
     [] @ Ciphertext (Key demo_cut_log) (BackupJSON ghost_backup) # [BadSymbol ''unexpected EOF'']
   \<and> list_all (passed_over demo_cut_log 7000000000) []
   \<and> Tables demo_cut_log (TableName ghost_backup) = None
   \<and> Restore demo_cut_log 7000000000 True =
       restore_scan demo_cut_log 7000000000 [BadSymbol ''unexpected EOF'']
   \<and> Tables (snd (Restore demo_cut_log 7000000000 True)) (TableName ghost_backup) = None"
proof -
  have l: "SafetyFile demo_ghost =
     [] @ Ciphertext (Key demo_ghost) (BackupJSON ghost_backup) #
     [Ciphertext ''k'' (BackupJSON products_backup)]"
    by (simp add: demo_log_facts) (simp add: demo_ghost_def)
  have lc: "SafetyFile demo_cut_log =
     [] @ Ciphertext (Key demo_cut_log) (BackupJSON ghost_backup) # [BadSymbol ''unexpected EOF'']"
    by (simp add: demo_log_facts) (simp add: demo_cut_log_def)
  have e: "list_all (passed_over demo_ghost 7000000000) []"
    and ec: "list_all (passed_over demo_cut_log 7000000000) []" by simp_all
  have m: "matches 7000000000 ghost_backup" by (simp add: demo_backup_facts)
  have u: "Tables demo_ghost (TableName ghost_backup) = None"
    and uc: "Tables demo_cut_log (TableName ghost_backup) = None"
    by (simp_all add: demo_backup_facts demo_log_facts)
  from demo_log_facts obtain table where t: "Tables demo_ghost ''products'' = Some table"
    by blast
  have p: "matches 7000000000 products_backup" "TableName products_backup = ''products''"
    by (simp_all add: demo_backup_facts)
  note step = Restore_passes_over_unknown_table [OF l e m u]
  from step have c: "Restore demo_ghost 7000000000 True =
       restore_scan demo_ghost 7000000000 [Ciphertext ''k'' (BackupJSON products_backup)]"
    and n: "Tables (snd (Restore demo_ghost 7000000000 True)) (TableName ghost_backup) = None"
    by blast+
  from restore_scan_restorable [of 7000000000 products_backup demo_ghost table "[]"] p t c
  have r: "Restore demo_ghost 7000000000 True = (None, reinstate demo_ghost products_backup table)"
    by (simp add: demo_log_facts)
  note cut = Restore_passes_over_unknown_table [OF lc ec m uc]
  from cut have cc: "Restore demo_cut_log 7000000000 True =
       restore_scan demo_cut_log 7000000000 [BadSymbol ''unexpected EOF'']"
    and nc: "Tables (snd (Restore demo_cut_log 7000000000 True)) (TableName ghost_backup) = None"
    by blast+
  from l e m u c n t r lc ec uc cc nc show ?thesis by blast
qed

text \<open>
  The specification's own wording leaves only two outcomes after such a record: a
  later matching record reinstated, or the recovery-point-not-found error. On the
  log of \<open>demo_cut_log\<close> the frame after the record of \<open>ghost\<close> is cut off within its
  symbols, and Restore fails with the decoding error.
\<close>

theorem Restore_after_unknown_table_counterexample:
  "SafetyFile demo_cut_log =
     [Ciphertext (Key demo_cut_log) (BackupJSON ghost_backup), BadSymbol ''unexpected EOF'']
   \<and> matches 7000000000 ghost_backup
   \<and> Tables demo_cut_log (TableName ghost_backup) = None
   \<and> Restore demo_cut_log 7000000000 True = (Some ''unexpected EOF'', demo_cut_log)
   \<and> ''unexpected EOF'' \<noteq> ''recovery point not found''"
  by (simp add: demo_log_facts demo_backup_facts Restore_def)
    (simp add: demo_cut_log_def matches_def truncate_second_def ghost_backup_def
      demo_inserted_def demo_row_def demo_defined_def demo_new_def
      DefineSchema_def Insert_def NewRow_def Let_def SaveSchemas_def put_table_def
      NewHotHeap_def products_fields_def index_has_def row_get_def seal_if_full_def
      at_capacity_def append_row_def)

section \<open>All-or-nothing batches and migrations\<close>

lemma row_get_Some: "r k = Some v \<Longrightarrow> row_get r k = v"
  by (simp add: row_get_def)

lemma validate_fields_violation:
  assumes "list_ex (field_violation_by_index h idx prev record) flds"
  shows "validate_fields h idx prev i (h record) flds \<noteq> None"
  using assms
  by (induction flds) (auto simp: field_violation_by_index_def row_get_Some split: option.splits)

lemma validate_records_invalid:
  assumes "i < length records"
    and "list_ex (field_violation_by_index h idx (prev @ take i records) (records ! i)) flds"
  shows "validate_records h idx flds prev records \<noteq> None"
  using assms
proof (induction records arbitrary: prev i)
  case Nil
  then show ?case by simp
next
  case (Cons r records)
  show ?case
  proof (cases i)
    case 0
    with Cons.prems validate_fields_violation [of h idx prev r flds "length prev"]
    show ?thesis by (auto split: option.splits)
  next
    case (Suc j)
    with Cons.prems have "j < length records"
      "list_ex (field_violation_by_index h idx ((prev @ [r]) @ take j records) (records ! j)) flds"
      by simp_all
    from Cons.IH [OF this] show ?thesis by (auto split: option.splits)
  qed
qed

lemma row_invalid_by_index_if_exact:
  assumes ex: "index_exact h table" and inv: "row_invalid h table earlier record"
  shows "row_invalid_by_index h table earlier record"
proof -
  from inv obtain f where f: "f \<in> set (Fields (TblSchema table))"
    and v: "field_violation h table earlier record f"
    by (auto simp: row_invalid_def list_ex_iff)
  have "field_violation_by_index h (UniqueIndices table) earlier record f"
  proof (cases "Unique f")
    case False
    with v show ?thesis by (simp add: field_violation_def field_violation_by_index_def)
  next
    case True
    with ex f have "UniqueIndices table (Name f) = Some (field_values h (all_rows table) (Name f))"
      by (simp add: index_exact_def)
    with v show ?thesis
      by (auto simp: field_violation_def field_violation_by_index_def index_has_def)
  qed
  with f show ?thesis by (auto simp: row_invalid_by_index_def list_ex_iff)
qed

text \<open>
  C3, as amended: BulkInsert and SyncSchema are all-or-nothing. A batch with an
  invalid row at any position (a missing field, a unique value that the unique index
  of the field already holds, or a duplicate of an earlier row of the batch) makes
  BulkInsert return an error and the database, so the table's rows, HotHeap and
  unique indices, is exactly as before; where the table's unique indices are exact,
  that covers every unique value that duplicates one in the table's rows. A
  SyncSchema whose diff is not Compatible returns an error and the same database.
\<close>

theorem BulkInsert_SyncSchema_all_or_nothing:
  "(\<forall>table i. Tables db tableName = Some table \<and> i < length records
        \<and> row_invalid_by_index (Heap db) table (take i records) (records ! i)
      \<longrightarrow> (\<exists>e. BulkInsert db tableName records now = (Some e, db)))
   \<and> (\<forall>table i. Tables db tableName = Some table \<and> index_exact (Heap db) table
        \<and> i < length records
        \<and> row_invalid (Heap db) table (take i records) (records ! i)
      \<longrightarrow> (\<exists>e. BulkInsert db tableName records now = (Some e, db)))
   \<and> (\<not> Compatiable (DiffSchema db tableName newFields)
      \<longrightarrow> (\<exists>e. SyncSchema db tableName newFields = (Some e, db)))"
proof -
  have b: "\<exists>e. BulkInsert db tableName records now = (Some e, db)"
    if "Tables db tableName = Some table" "i < length records"
      "row_invalid_by_index (Heap db) table (take i records) (records ! i)" for table i
  proof -
    from that(3) have "list_ex (field_violation_by_index (Heap db) (UniqueIndices table)
                         ([] @ take i records) (records ! i)) (Fields (TblSchema table))"
      by (simp add: row_invalid_by_index_def)
    from validate_records_invalid [OF that(2) this] that(1) show ?thesis
      by (auto simp: BulkInsert_def)
  qed
  have x: "\<exists>e. BulkInsert db tableName records now = (Some e, db)"
    if "Tables db tableName = Some table" "index_exact (Heap db) table" "i < length records"
      "row_invalid (Heap db) table (take i records) (records ! i)" for table i
    using b [OF that(1,3) row_invalid_by_index_if_exact [OF that(2,4)]] .
  have s: "\<exists>e. SyncSchema db tableName newFields = (Some e, db)"
    if "\<not> Compatiable (DiffSchema db tableName newFields)"
    using that by (simp add: SyncSchema_def Let_def)
  from b x s show ?thesis by blast
qed

lemma demo_batch_products:
  "\<exists>table. Tables demo_batch ''products'' = Some table
     \<and> Fields (TblSchema table) = products_fields
     \<and> UniqueIndices table ''id'' = Some {VInt 1}
     \<and> Rows (TblHotHeap table) = [0] \<and> SealedClumps table = []"
  by (simp add: demo_batch_def demo_inserted_def demo_row_def demo_defined_def demo_new_def
      DefineSchema_def Insert_def NewRow_def Let_def SaveSchemas_def put_table_def
      NewHotHeap_def products_fields_def index_has_def row_get_def seal_if_full_def
      at_capacity_def append_row_def)

lemma demo_batch_heap:
  "Heap demo_batch 0 ''id'' = Some (VInt 1)"
  "Heap demo_batch (Suc 0) ''id'' = Some (VInt 2)" "Heap demo_batch 2 ''id'' = Some (VInt 2)"
  "Heap demo_batch 2 ''price'' = Some (VInt 30)" "Heap demo_batch 3 ''price'' = Some (VInt 5)"
  "Heap demo_batch 3 ''id'' = Some (VInt 1)" "Heap demo_batch 4 ''price'' = None"
  by (simp_all add: demo_batch_def demo_inserted_def demo_row_def demo_defined_def demo_new_def
      DefineSchema_def Insert_def NewRow_def Let_def SaveSchemas_def put_table_def
      NewHotHeap_def products_fields_def index_has_def row_get_def seal_if_full_def
      at_capacity_def append_row_def)

lemma demo_batch_schema:
  "Schemas demo_batch ''products'' = Some \<lparr>Version = 1, Fields = products_fields\<rparr>"
  by (simp add: demo_batch_def demo_inserted_def demo_row_def demo_defined_def demo_new_def
      DefineSchema_def Insert_def NewRow_def Let_def SaveSchemas_def put_table_def
      NewHotHeap_def products_fields_def index_has_def row_get_def seal_if_full_def
      at_capacity_def append_row_def)

theorem BulkInsert_SyncSchema_all_or_nothing_witness:
  "(\<exists>table. Tables demo_batch ''products'' = Some table
      \<and> row_invalid_by_index (Heap demo_batch) table (take 1 [1, 2]) ([1, 2] ! 1)
      \<and> row_invalid_by_index (Heap demo_batch) table (take 1 [1, 3]) ([1, 3] ! 1)
      \<and> row_invalid_by_index (Heap demo_batch) table (take 1 [1, 4]) ([1, 4] ! 1)
      \<and> index_exact (Heap demo_batch) table
      \<and> row_invalid (Heap demo_batch) table (take 0 [3, 1]) ([3, 1] ! 0))
   \<and> (\<exists>e. BulkInsert demo_batch ''products'' [1, 2] 9 = (Some e, demo_batch))
   \<and> (\<exists>e. BulkInsert demo_batch ''products'' [1, 3] 9 = (Some e, demo_batch))
   \<and> (\<exists>e. BulkInsert demo_batch ''products'' [1, 4] 9 = (Some e, demo_batch))
   \<and> (\<exists>e. BulkInsert demo_batch ''products'' [3, 1] 9 = (Some e, demo_batch))
   \<and> \<not> Compatiable (DiffSchema demo_batch ''products'' price_as_string)
   \<and> (\<exists>e. SyncSchema demo_batch ''products'' price_as_string = (Some e, demo_batch))"
proof -
  from demo_batch_products obtain table where
    t: "Tables demo_batch ''products'' = Some table"
    and f: "Fields (TblSchema table) = products_fields"
    and u: "UniqueIndices table ''id'' = Some {VInt 1}"
    and r: "Rows (TblHotHeap table) = [0]" "SealedClumps table = []"
    by blast
  have i2: "row_invalid_by_index (Heap demo_batch) table (take 1 [1, 2]) ([1, 2] ! 1)"
    by (simp add: row_invalid_by_index_def field_violation_by_index_def f products_fields_def
        demo_batch_heap row_get_def)
  have i3: "row_invalid_by_index (Heap demo_batch) table (take 1 [1, 3]) ([1, 3] ! 1)"
    by (simp add: row_invalid_by_index_def field_violation_by_index_def f u products_fields_def
        demo_batch_heap row_get_def index_has_def)
  have i4: "row_invalid_by_index (Heap demo_batch) table (take 1 [1, 4]) ([1, 4] ! 1)"
    by (simp add: row_invalid_by_index_def field_violation_by_index_def f products_fields_def
        demo_batch_heap)
  have v: "field_values (Heap demo_batch) (all_rows table) ''id'' = {VInt 1}"
    by (simp add: field_values_def all_rows_def clump_rows_def r demo_batch_heap)
  have ex: "index_exact (Heap demo_batch) table"
    by (simp add: index_exact_def f products_fields_def u v)
  have s3: "row_invalid (Heap demo_batch) table (take 0 [3, 1]) ([3, 1] ! 0)"
    by (simp add: row_invalid_def field_violation_def f products_fields_def v demo_batch_heap
        row_get_def)
  have c: "\<not> Compatiable (DiffSchema demo_batch ''products'' price_as_string)"
    by (simp add: DiffSchema_def demo_batch_schema products_fields_def price_as_string_def)
  have l2: "(1::nat) < length [1::addr, 2]" and l3: "(1::nat) < length [1::addr, 3]"
    and l4: "(1::nat) < length [1::addr, 4]" and l0: "(0::nat) < length [3::addr, 1]"
    by simp_all
  from BulkInsert_SyncSchema_all_or_nothing
    [of demo_batch "''products''" "[1, 2]" 9 price_as_string] t l2 i2
  have r2: "\<exists>e. BulkInsert demo_batch ''products'' [1, 2] 9 = (Some e, demo_batch)"
    by blast
  from BulkInsert_SyncSchema_all_or_nothing
    [of demo_batch "''products''" "[1, 2]" 9 price_as_string] c
  have s: "\<exists>e. SyncSchema demo_batch ''products'' price_as_string = (Some e, demo_batch)"
    by blast
  from BulkInsert_SyncSchema_all_or_nothing
    [of demo_batch "''products''" "[1, 3]" 9 price_as_string] t l3 i3
  have r3: "\<exists>e. BulkInsert demo_batch ''products'' [1, 3] 9 = (Some e, demo_batch)"
    by blast
  from BulkInsert_SyncSchema_all_or_nothing
    [of demo_batch "''products''" "[1, 4]" 9 price_as_string] t l4 i4
  have r4: "\<exists>e. BulkInsert demo_batch ''products'' [1, 4] 9 = (Some e, demo_batch)"
    by blast
  from BulkInsert_SyncSchema_all_or_nothing
    [of demo_batch "''products''" "[3, 1]" 9 price_as_string] t ex l0 s3
  have r0: "\<exists>e. BulkInsert demo_batch ''products'' [3, 1] 9 = (Some e, demo_batch)"
    by blast
  from t i2 i3 i4 ex s3 r2 r3 r4 r0 c s show ?thesis by blast
qed

text \<open>
  The specification's own wording counts a unique value that duplicates existing
  data as invalid. In \<open>demo_redefined_row\<close> the table holds a row with \<open>id = 1\<close>
  and the index of \<open>id\<close> is empty, DefineSchema having made it anew; a batch of the
  one new row with \<open>id = 1\<close> is invalid in those words, and BulkInsert accepts
  it: the table then holds two rows with \<open>id = 1\<close>.
\<close>

theorem BulkInsert_duplicate_of_row_counterexample:
  "column demo_redefined_row ''products'' ''id'' = Some [VInt 1]
   \<and> index_of demo_redefined_row ''products'' ''id'' = Some {}
   \<and> Heap demo_redefined_row 1 ''id'' = Some (VInt 1)
   \<and> batch_invalid_at demo_redefined_row ''products'' [1] 0
   \<and> fst (BulkInsert demo_redefined_row ''products'' [1] 9) = None
   \<and> column (snd (BulkInsert demo_redefined_row ''products'' [1] 9)) ''products'' ''id''
       = Some [VInt 1, VInt 1]"
  by (simp add: batch_invalid_at_def row_invalid_def field_violation_def field_values_def
      index_of_def demo_redefined_row_def demo_redefined_def demo_unfold fresh_indices_lookup)

end
